theory Spec2Isabelle
  imports Main
begin

section \<open>Relational store: scrape jobs\<close>

text \<open>
  The \<open>scrape_jobs\<close> table and \<open>JobService\<close> (backend/src/services/job.service.ts).
  A row is found by its id; \<open>status\<close> takes the four literals the code writes;
  \<open>completedAt\<close> is a nullable timestamp (milliseconds as a natural number).
\<close>

datatype job_status = Pending | Processing | Completed | Failed

datatype error =
    RecordNotFound
  | ScrapeError string
  | RedisError
  | SyntaxError

record scrape_job =
  userId :: "nat option"
  urls :: "string list"
  status :: job_status
  completedAt :: "nat option"

type_synonym job_table = "nat \<rightharpoonup> scrape_job"

text \<open>
  \<open>JobService.updateStatus(id, status, completedAt?)\<close>: Prisma's \<open>update\<close> rejects when no
  row has the id; a field whose value is \<open>undefined\<close> is left as it is, so a call
  without \<open>completedAt\<close> writes the status only.
\<close>

definition updateStatus :: "nat \<Rightarrow> job_status \<Rightarrow> nat option \<Rightarrow> job_table \<Rightarrow> error + job_table" where
  "updateStatus i st ca tbl =
     (case tbl i of
        None \<Rightarrow> Inl RecordNotFound
      | Some j \<Rightarrow>
          Inr (tbl(i \<mapsto> j\<lparr>status := st,
                            completedAt := (case ca of None \<Rightarrow> completedAt j | Some t \<Rightarrow> Some t)\<rparr>)))"

section \<open>Pipeline controller: the job completion tracker\<close>

text \<open>
  \<open>QueueManager.setupEventHandlers\<close> (backend/src/queue/queue.manager.ts). The tracker is
  a \<open>Map\<close> from job id to three counters, local to the handlers. Here each handler runs
  to its end before anything else does; the handlers cut at their awaits follow further
  down. \<open>new Date()\<close> is the \<open>now\<close> the event carries.
  \<open>terminalWrites\<close> lists, oldest first, the \<open>updateStatus\<close> calls of the two outcome
  handlers that reached the store.
\<close>

record progress =
  total :: nat
  completed :: nat
  failed :: nat

record controller =
  jobs :: job_table
  jobCompletionTracker :: "nat \<rightharpoonup> progress"
  terminalWrites :: "(nat \<times> job_status \<times> nat) list"

definition on_active :: "nat \<Rightarrow> controller \<Rightarrow> (error + unit) \<times> controller" where
  "on_active jobId s =
     (case jobCompletionTracker s jobId of
        Some _ \<Rightarrow> (Inr (), s)
      | None \<Rightarrow>
          (case jobs s jobId of
             None \<Rightarrow> (Inr (), s)
           | Some dbJob \<Rightarrow>
               (Inr (), s\<lparr>jobCompletionTracker := (jobCompletionTracker s)
                   (jobId \<mapsto> \<lparr>total = length (urls dbJob), completed = 0, failed = 0\<rparr>)\<rparr>)))"

definition finish_job :: "nat \<Rightarrow> job_status \<Rightarrow> nat \<Rightarrow> controller \<Rightarrow> (error + unit) \<times> controller" where
  \<comment> \<open>\<open>await jobService.updateStatus(jobId, status, new Date()); tracker.delete(jobId)\<close>\<close>
  "finish_job jobId st now s =
     (case updateStatus jobId st (Some now) (jobs s) of
        Inl e \<Rightarrow> (Inl e, s)
      | Inr tbl \<Rightarrow>
          (Inr (), s\<lparr>jobs := tbl,
                      jobCompletionTracker := (jobCompletionTracker s)(jobId := None),
                      terminalWrites := terminalWrites s @ [(jobId, st, now)]\<rparr>))"

definition on_completed :: "nat \<Rightarrow> nat \<Rightarrow> controller \<Rightarrow> (error + unit) \<times> controller" where
  "on_completed jobId now s =
     (case jobCompletionTracker s jobId of
        None \<Rightarrow> (Inr (), s)
      | Some t \<Rightarrow>
          (let t' = t\<lparr>completed := completed t + 1\<rparr>;
               s' = s\<lparr>jobCompletionTracker := (jobCompletionTracker s)(jobId \<mapsto> t')\<rparr>
           in if completed t' + failed t' \<ge> total t'
              then finish_job jobId Completed now s'
              else (Inr (), s')))"

definition on_failed :: "nat \<Rightarrow> nat \<Rightarrow> controller \<Rightarrow> (error + unit) \<times> controller" where
  "on_failed jobId now s =
     (case jobCompletionTracker s jobId of
        None \<Rightarrow> (Inr (), s)
      | Some t \<Rightarrow>
          (let t' = t\<lparr>failed := failed t + 1\<rparr>;
               s' = s\<lparr>jobCompletionTracker := (jobCompletionTracker s)(jobId \<mapsto> t')\<rparr>
           in if completed t' + failed t' \<ge> total t'
              then finish_job jobId (if failed t' = total t' then Failed else Completed) now s'
              else (Inr (), s')))"

section \<open>Worker and queue events as a step function\<close>

text \<open>
  What a run of the pipeline does to the job table and the tracker. \<open>EvProcess j\<close> is the
  worker handler \<open>processScrapeJob\<close> taking up a queue item of job \<open>j\<close>: its first
  statement is \<open>await jobService.updateStatus(jobId, "processing")\<close>, the handler's only
  write to the job table. \<open>EvActive\<close>, \<open>EvCompleted\<close> and \<open>EvFailed\<close> are the queue's
  events, handled by the controller; the last two carry the clock's reading. The queue
  emits \<open>failed\<close> for every failed attempt, also one that will be retried, and an item
  whose lock lapsed is delivered again, so a job can see more outcome events than it has
  URLs, and events after its tracker entry was deleted: a run is any list of events. A
  handler that rejects leaves the state as it was at the rejection and the run goes on.
\<close>

datatype event =
    EvProcess nat
  | EvActive nat
  | EvCompleted nat nat
  | EvFailed nat nat

definition begin_processing :: "nat \<Rightarrow> controller \<Rightarrow> (error + unit) \<times> controller" where
  "begin_processing jobId s =
     (case updateStatus jobId Processing None (jobs s) of
        Inl e \<Rightarrow> (Inl e, s)
      | Inr tbl \<Rightarrow> (Inr (), s\<lparr>jobs := tbl\<rparr>))"

fun step :: "event \<Rightarrow> controller \<Rightarrow> controller" where
  "step (EvProcess j) s = snd (begin_processing j s)"
| "step (EvActive j) s = snd (on_active j s)"
| "step (EvCompleted j now) s = snd (on_completed j now s)"
| "step (EvFailed j now) s = snd (on_failed j now s)"

fun run :: "event list \<Rightarrow> controller \<Rightarrow> controller" where
  "run [] s = s"
| "run (e # es) s = run es (step e s)"

definition terminal :: "job_status \<Rightarrow> bool" where
  "terminal st = (st = Completed \<or> st = Failed)"

fun rank :: "job_status \<Rightarrow> nat" where
  "rank Pending = 0"
| "rank Processing = 1"
| "rank Completed = 2"
| "rank Failed = 2"

definition completed_at_iff_terminal :: "scrape_job \<Rightarrow> bool" where
  "completed_at_iff_terminal jb = ((completedAt jb \<noteq> None) = terminal (status jb))"

definition terminal_has_completed_at :: "controller \<Rightarrow> bool" where
  "terminal_has_completed_at s =
     (\<forall>j jb. jobs s j = Some jb \<longrightarrow> terminal (status jb) \<longrightarrow> completedAt jb \<noteq> None)"

definition all_completed_at_iff_terminal :: "controller \<Rightarrow> bool" where
  "all_completed_at_iff_terminal s = (\<forall>j jb. jobs s j = Some jb \<longrightarrow> completed_at_iff_terminal jb)"

text \<open>
  \<open>no_reprocess evs s\<close>: along the run of \<open>evs\<close> from \<open>s\<close>, the worker handler never takes
  up an item of a job whose status is already \<open>completed\<close> or \<open>failed\<close>.
\<close>

fun no_reprocess :: "event list \<Rightarrow> controller \<Rightarrow> bool" where
  "no_reprocess [] s = True"
| "no_reprocess (e # es) s =
     ((case e of
         EvProcess j \<Rightarrow> (case jobs s j of None \<Rightarrow> True | Some jb \<Rightarrow> \<not> terminal (status jb))
       | _ \<Rightarrow> True)
      \<and> no_reprocess es (step e s))"

definition job_new :: scrape_job where
  \<comment> \<open>a row as \<open>JobService.create\<close> inserts it\<close>
  "job_new = \<lparr>userId = None, urls = [''https://a.example/''], status = Pending, completedAt = None\<rparr>"

definition ctl_submitted :: controller where
  "ctl_submitted = \<lparr>jobs = [1 \<mapsto> job_new], jobCompletionTracker = Map.empty, terminalWrites = []\<rparr>"

definition job_view :: "controller \<Rightarrow> nat \<Rightarrow> (job_status \<times> nat option) option" where
  "job_view s j = map_option (\<lambda>jb. (status jb, completedAt jb)) (jobs s j)"

section \<open>The controller's handlers at their awaits\<close>

text \<open>
  The three listeners are \<open>async\<close> functions, and the event loop runs other code while one
  of them waits. The \<open>active\<close> listener tests \<open>has(jobId)\<close>, awaits \<open>findById\<close>, and only
  then sets the entry. An outcome listener increments the counter, compares, computes the
  status and the date, awaits \<open>updateStatus\<close>, and only then deletes the entry. A
  \<open>continuation\<close> is what a suspended listener still has to do: \<open>SetEntry\<close> after
  \<open>findById\<close>; \<open>Write\<close>, the update as the store performs it, followed by \<open>Delete\<close>, the
  listener's last statement (a rejected update ends the listener without it). The event
  loop holds the controller's state and the suspended continuations; a \<open>micro\<close> step is
  either the synchronous first part of a handler or the resumption of one suspended
  continuation, in any order (resuming one that is not suspended does nothing).
\<close>

datatype continuation =
    SetEntry nat
  | Write nat job_status nat
  | Delete nat

record event_loop =
  ctl :: controller
  suspended :: "continuation list"

definition active_start :: "nat \<Rightarrow> controller \<Rightarrow> controller \<times> continuation list" where
  "active_start jobId c =
     (case jobCompletionTracker c jobId of
        Some _ \<Rightarrow> (c, [])
      | None \<Rightarrow> (c, [SetEntry jobId]))"

definition completed_start :: "nat \<Rightarrow> nat \<Rightarrow> controller \<Rightarrow> controller \<times> continuation list" where
  "completed_start jobId now c =
     (case jobCompletionTracker c jobId of
        None \<Rightarrow> (c, [])
      | Some t \<Rightarrow>
          (let t' = t\<lparr>completed := completed t + 1\<rparr>;
               c' = c\<lparr>jobCompletionTracker := (jobCompletionTracker c)(jobId \<mapsto> t')\<rparr>
           in if completed t' + failed t' \<ge> total t'
              then (c', [Write jobId Completed now])
              else (c', [])))"

definition failed_start :: "nat \<Rightarrow> nat \<Rightarrow> controller \<Rightarrow> controller \<times> continuation list" where
  "failed_start jobId now c =
     (case jobCompletionTracker c jobId of
        None \<Rightarrow> (c, [])
      | Some t \<Rightarrow>
          (let t' = t\<lparr>failed := failed t + 1\<rparr>;
               c' = c\<lparr>jobCompletionTracker := (jobCompletionTracker c)(jobId \<mapsto> t')\<rparr>
           in if completed t' + failed t' \<ge> total t'
              then (c', [Write jobId (if failed t' = total t' then Failed else Completed) now])
              else (c', [])))"

fun resume :: "continuation \<Rightarrow> controller \<Rightarrow> controller \<times> continuation list" where
  "resume (SetEntry jobId) c =
     (case jobs c jobId of
        None \<Rightarrow> (c, [])
      | Some dbJob \<Rightarrow>
          (c\<lparr>jobCompletionTracker := (jobCompletionTracker c)
                (jobId \<mapsto> \<lparr>total = length (urls dbJob), completed = 0, failed = 0\<rparr>)\<rparr>, []))"
| "resume (Write jobId st now) c =
     (case updateStatus jobId st (Some now) (jobs c) of
        Inl e \<Rightarrow> (c, [])
      | Inr tbl \<Rightarrow>
          (c\<lparr>jobs := tbl, terminalWrites := terminalWrites c @ [(jobId, st, now)]\<rparr>,
           [Delete jobId]))"
| "resume (Delete jobId) c =
     (c\<lparr>jobCompletionTracker := (jobCompletionTracker c)(jobId := None)\<rparr>, [])"

datatype micro =
    MProcess nat
  | MActive nat
  | MCompleted nat nat
  | MFailed nat nat
  | MResume continuation

definition spawn :: "event_loop \<Rightarrow> controller \<times> continuation list \<Rightarrow> event_loop" where
  "spawn s r = \<lparr>ctl = fst r, suspended = suspended s @ snd r\<rparr>"

fun mstep :: "micro \<Rightarrow> event_loop \<Rightarrow> event_loop" where
  "mstep (MProcess j) s = s\<lparr>ctl := snd (begin_processing j (ctl s))\<rparr>"
| "mstep (MActive j) s = spawn s (active_start j (ctl s))"
| "mstep (MCompleted j now) s = spawn s (completed_start j now (ctl s))"
| "mstep (MFailed j now) s = spawn s (failed_start j now (ctl s))"
| "mstep (MResume k) s =
     (if k \<in> set (suspended s)
      then spawn (s\<lparr>suspended := remove1 k (suspended s)\<rparr>) (resume k (ctl s))
      else s)"

fun mrun :: "micro list \<Rightarrow> event_loop \<Rightarrow> event_loop" where
  "mrun [] s = s"
| "mrun (m # ms) s = mrun ms (mstep m s)"

text \<open>
  \<open>to_completion e\<close>: the event \<open>e\<close> with its handler resumed at once, before anything else
  runs. From a loop with nothing suspended this is the step \<open>step e\<close> above.
\<close>

fun to_completion :: "event \<Rightarrow> micro list" where
  "to_completion (EvProcess j) = [MProcess j]"
| "to_completion (EvActive j) = [MActive j, MResume (SetEntry j)]"
| "to_completion (EvCompleted j now) =
     [MCompleted j now, MResume (Write j Completed now), MResume (Delete j)]"
| "to_completion (EvFailed j now) =
     [MFailed j now, MResume (Write j Failed now), MResume (Write j Completed now),
      MResume (Delete j)]"

definition waiting_on :: "event_loop \<Rightarrow> nat \<Rightarrow> bool" where
  \<comment> \<open>an outcome listener of job \<open>j\<close> is suspended between its increment and its delete\<close>
  "waiting_on s j =
     list_ex (\<lambda>k. case k of SetEntry _ \<Rightarrow> False | Write i _ _ \<Rightarrow> i = j | Delete i \<Rightarrow> i = j)
       (suspended s)"

definition loop_ok :: "event_loop \<Rightarrow> bool" where
  "loop_ok s =
     ((\<forall>j t. jobCompletionTracker (ctl s) j = Some t \<longrightarrow>
          jobs (ctl s) j \<noteq> None
        \<and> (completed t + failed t < total t \<or> (completed t = 0 \<and> failed t = 0) \<or> waiting_on s j))
      \<and> (\<forall>j st now. Write j st now \<in> set (suspended s) \<longrightarrow> jobs (ctl s) j \<noteq> None))"

definition job_two :: scrape_job where
  "job_two = \<lparr>userId = None, urls = [''https://a.example/'', ''https://b.example/''],
              status = Pending, completedAt = None\<rparr>"

definition loop_two :: event_loop where
  \<comment> \<open>a job of two URLs just submitted, nothing suspended\<close>
  "loop_two = \<lparr>ctl = \<lparr>jobs = [1 \<mapsto> job_two], jobCompletionTracker = Map.empty,
                        terminalWrites = []\<rparr>,
                suspended = []\<rparr>"

definition loop_one :: event_loop where
  "loop_one = \<lparr>ctl = ctl_submitted, suspended = []\<rparr>"

definition tracker_view :: "event_loop \<Rightarrow> nat \<Rightarrow> (nat \<times> nat \<times> nat) option" where
  "tracker_view s j =
     map_option (\<lambda>t. (total t, completed t, failed t)) (jobCompletionTracker (ctl s) j)"

section \<open>Queue events with their URL and attempt\<close>

text \<open>
  What the queue emits carries the queue item: the job id, the URL and \<open>attemptsMade\<close>.
  The controller's listeners read the job id only. The queue is created with
  \<open>attempts: 2\<close>, and it emits \<open>failed\<close> after every failed attempt; the listener that
  \<open>createScrapeQueue\<close> itself registers tells the last attempt from the others with
  \<open>job.attemptsMade >= (job.opts.attempts || 1)\<close>. \<open>deliver\<close> is one queue event as the
  controller and the worker see it: \<open>active\<close> is followed by the processor's first
  statement, and every listener runs to its end.
\<close>

datatype bull_event =
    BullActive nat string
  | BullCompleted nat string nat
  | BullFailed nat string nat nat

definition attempts_configured :: nat where
  "attempts_configured = 2"

definition isFinalAttempt :: "nat \<Rightarrow> nat \<Rightarrow> bool" where
  "isFinalAttempt attemptsMade attempts = (attemptsMade \<ge> (if attempts = 0 then 1 else attempts))"

fun deliver :: "bull_event \<Rightarrow> micro list" where
  "deliver (BullActive j u) = to_completion (EvActive j) @ to_completion (EvProcess j)"
| "deliver (BullCompleted j u now) = to_completion (EvCompleted j now)"
| "deliver (BullFailed j u attemptsMade now) = to_completion (EvFailed j now)"

text \<open>
  What the specification means by a URL that failed: its last attempt failed.
\<close>

definition url_failed :: "bull_event list \<Rightarrow> nat \<Rightarrow> string \<Rightarrow> bool" where
  "url_failed evs j u =
     list_ex (\<lambda>e. case e of
                     BullFailed j' u' attemptsMade _ \<Rightarrow>
                       j' = j \<and> u' = u \<and> isFinalAttempt attemptsMade attempts_configured
                   | _ \<Rightarrow> False) evs"

definition every_url_failed :: "bull_event list \<Rightarrow> nat \<Rightarrow> string list \<Rightarrow> bool" where
  "every_url_failed evs j us = list_all (url_failed evs j) us"

definition url_completed :: "bull_event list \<Rightarrow> nat \<Rightarrow> string \<Rightarrow> bool" where
  "url_completed evs j u =
     list_ex (\<lambda>e. case e of BullCompleted j' u' _ \<Rightarrow> j' = j \<and> u' = u | _ \<Rightarrow> False) evs"

definition a_fails_twice_b_completes :: "bull_event list" where
  \<comment> \<open>job 1 of two URLs: both items start, \<open>a\<close> fails, is retried and fails again, then \<open>b\<close> completes\<close>
  "a_fails_twice_b_completes =
     [BullActive 1 ''https://a.example/'', BullActive 1 ''https://b.example/'',
      BullFailed 1 ''https://a.example/'' 1 5,
      BullActive 1 ''https://a.example/'',
      BullFailed 1 ''https://a.example/'' 2 9,
      BullCompleted 1 ''https://b.example/'' 12]"

section \<open>Extraction router\<close>

text \<open>
  \<open>ScraperManager.scrape\<close> (backend/src/scrapers/scraper.manager.ts) and the result type
  of backend/src/scrapers/types.ts. The two scrapers are parameters. The static
  extractor's \<open>scrape\<close> wraps its whole body in \<open>try\<close>/\<open>catch\<close> and always returns a
  result; the router calls the renderer inside its own \<open>try\<close>, so the renderer is a
  function that may throw. The second component of the router's value lists the scrapers
  it invoked, in order.
\<close>

datatype media_type = Image | Video

record scraped_media =
  mediaUrl :: string
  mediaType :: media_type
  title :: "string option"

datatype scraper = Cheerio | Puppeteer

record scrape_result =
  url :: string
  success :: bool
  media :: "scraped_media list"
  error :: "string option"
  scraperUsed :: scraper

definition scraperManager_scrape ::
  "(string \<Rightarrow> scrape_result) \<Rightarrow> (string \<Rightarrow> error + scrape_result) \<Rightarrow> string
     \<Rightarrow> scrape_result \<times> scraper list" where
  "scraperManager_scrape cheerioScraper puppeteerScraper u =
     (let cheerioResult = cheerioScraper u in
      if success cheerioResult \<and> length (media cheerioResult) \<ge> 3
      then (cheerioResult, [Cheerio])
      else
        (case puppeteerScraper u of
           Inr puppeteerResult \<Rightarrow>
             if success puppeteerResult
                \<and> length (media puppeteerResult) > length (media cheerioResult)
             then (puppeteerResult, [Cheerio, Puppeteer])
             else (cheerioResult, [Cheerio, Puppeteer])
         | Inl e \<Rightarrow> (cheerioResult, [Cheerio, Puppeteer])))"

subsection \<open>Sample scrapers: a client-rendered page\<close>

definition img :: "string \<Rightarrow> scraped_media" where
  "img u = \<lparr>mediaUrl = u, mediaType = Image, title = None\<rparr>"

definition static_none :: "string \<Rightarrow> scrape_result" where
  \<comment> \<open>the static markup has no media\<close>
  "static_none u = \<lparr>url = u, success = True, media = [], error = None, scraperUsed = Cheerio\<rparr>"

definition rendered_five :: "string \<Rightarrow> error + scrape_result" where
  \<comment> \<open>the rendered page has five images\<close>
  "rendered_five u =
     Inr \<lparr>url = u, success = True,
          media = [img ''https://x.example/1.jpg'', img ''https://x.example/2.jpg'',
                   img ''https://x.example/3.jpg'', img ''https://x.example/4.jpg'',
                   img ''https://x.example/5.jpg''],
          error = None, scraperUsed = Puppeteer\<rparr>"

definition renderer_crashes :: "string \<Rightarrow> error + scrape_result" where
  "renderer_crashes u = Inl (ScrapeError ''Target closed'')"

section \<open>Submission: POST /api/scrape\<close>

text \<open>
  The route handler \<open>router.post("/")\<close> of the scrape routes, behind \<open>basicAuth\<close> and
  the \<open>scrapeRequest\<close> schema of the validation middleware: the body holds an array of 1
  to 100 strings, each of which passes zod's URL check (\<open>validUrl\<close>, a parameter).
  \<open>user\<close> is the id \<open>basicAuth\<close> attached, and the row gets \<open>user?.id || null\<close>.
  \<open>[...new Set(urls)]\<close> lists the set's elements in insertion order, and inserting an
  element the set already has changes nothing. \<open>JobService.create\<close> inserts a \<open>pending\<close>
  row under the next serial id. \<open>addUrlsToQueue\<close> is not awaited: when the queue is not
  initialised its rejection is lost and the response is the same.
\<close>

definition set_insertion_order :: "'a list \<Rightarrow> 'a list" where
  \<comment> \<open>\<open>[...new Set(xs)]\<close>\<close>
  "set_insertion_order xs = foldl (\<lambda>seen x. if x \<in> set seen then seen else seen @ [x]) [] xs"

record queue_item =
  itemJobId :: nat
  itemUrl :: string
  priority :: nat

record submission_state =
  jobRows :: job_table
  nextJobId :: nat
  scrapeQueue :: "queue_item list option"

record scrape_created =
  job_id :: nat
  job_status :: job_status
  total_urls :: nat
  duplicates_removed :: nat

datatype scrape_response = Created scrape_created | BadRequest

definition jobService_create :: "nat option \<Rightarrow> string list \<Rightarrow> submission_state \<Rightarrow> nat \<times> scrape_job \<times> submission_state" where
  "jobService_create uid us st =
     (let row = \<lparr>userId = uid, urls = us, status = Pending, completedAt = None\<rparr>
      in (nextJobId st, row,
          st\<lparr>jobRows := (jobRows st)(nextJobId st \<mapsto> row), nextJobId := nextJobId st + 1\<rparr>))"

definition addUrlsToQueue :: "nat \<Rightarrow> string list \<Rightarrow> nat \<Rightarrow> submission_state \<Rightarrow> submission_state" where
  "addUrlsToQueue jobId us now st =
     (case scrapeQueue st of
        None \<Rightarrow> st
      | Some q \<Rightarrow>
          st\<lparr>scrapeQueue :=
               Some (q @ map (\<lambda>u. \<lparr>itemJobId = jobId, itemUrl = u, priority = now\<rparr>) us)\<rparr>)"

definition scrapeRequest_valid :: "(string \<Rightarrow> bool) \<Rightarrow> string list \<Rightarrow> bool" where
  "scrapeRequest_valid validUrl us = (list_all validUrl us \<and> 1 \<le> length us \<and> length us \<le> 100)"

definition post_scrape ::
  "(string \<Rightarrow> bool) \<Rightarrow> nat option \<Rightarrow> nat \<Rightarrow> string list \<Rightarrow> submission_state
     \<Rightarrow> scrape_response \<times> submission_state" where
  "post_scrape validUrl user now us st =
     (if \<not> scrapeRequest_valid validUrl us then (BadRequest, st)
      else
        (let uniqueUrls = set_insertion_order us;
             duplicatesRemoved = length us - length uniqueUrls;
             (jid, job, st1) =
               jobService_create (case user of None \<Rightarrow> None
                                  | Some i \<Rightarrow> if i = 0 then None else Some i) uniqueUrls st;
             st2 = addUrlsToQueue jid uniqueUrls now st1
         in (Created \<lparr>job_id = jid, job_status = status job,
                       total_urls = length uniqueUrls,
                       duplicates_removed = duplicatesRemoved\<rparr>, st2)))"

text \<open>
  The order the specification asks for, written on its own: the head of the list is kept
  and its later copies are dropped, then the same for the rest.
\<close>

fun first_occurrences :: "'a list \<Rightarrow> 'a list" where
  "first_occurrences [] = []"
| "first_occurrences (x # xs) = x # first_occurrences (filter (\<lambda>y. y \<noteq> x) xs)"

definition api_empty :: submission_state where
  "api_empty = \<lparr>jobRows = Map.empty, nextJobId = 1, scrapeQueue = Some []\<rparr>"

definition https_only :: "string \<Rightarrow> bool" where
  \<comment> \<open>a stand-in for zod's URL check on the sample request\<close>
  "https_only u = (take 8 u = ''https://'')"

section \<open>Cache keys\<close>

text \<open>
  \<open>CacheKeys.urlCache\<close> and \<open>CacheTTL\<close> of the cache module. A string is the list of its
  UTF-8 bytes, which is what \<open>Buffer.from(url)\<close> encodes; the encoded text is ASCII, so
  \<open>slice(0, 100)\<close> is \<open>take 100\<close>. \<open>encode_groups\<close> is the encoder of RFC 4648: three
  bytes give four digits of the alphabet \<open>abc\<close>, a last group of one or two bytes gives
  two or three digits and, when \<open>pad\<close>, \<open>=\<close> up to four characters.
  Node's \<open>toString("base64")\<close> is the standard alphabet with padding.
\<close>

definition b64_alphabet :: string where
  "b64_alphabet = ''ABCDEFGHIJKLMNOPQRSTUVWXYZabcdefghijklmnopqrstuvwxyz0123456789+/''"

definition b64_digit :: "string \<Rightarrow> nat \<Rightarrow> char" where
  "b64_digit abc n = abc ! (n mod 64)"

fun encode_groups :: "string \<Rightarrow> bool \<Rightarrow> nat list \<Rightarrow> string" where
  "encode_groups abc pad [] = []"
| "encode_groups abc pad [a] =
     [b64_digit abc (a div 4), b64_digit abc ((a mod 4) * 16)] @ (if pad then ''=='' else [])"
| "encode_groups abc pad [a, b] =
     [b64_digit abc (a div 4), b64_digit abc ((a mod 4) * 16 + b div 16),
      b64_digit abc ((b mod 16) * 4)] @ (if pad then ''='' else [])"
| "encode_groups abc pad (a # b # c # rest) =
     [b64_digit abc (a div 4), b64_digit abc ((a mod 4) * 16 + b div 16),
      b64_digit abc ((b mod 16) * 4 + c div 64), b64_digit abc (c mod 64)]
     @ encode_groups abc pad rest"

definition base64 :: "string \<Rightarrow> string" where
  \<comment> \<open>\<open>Buffer.from(s).toString("base64")\<close>\<close>
  "base64 s = encode_groups b64_alphabet True (map of_char s)"

definition urlCache :: "string \<Rightarrow> string" where
  "urlCache u = ''url:'' @ take 100 (base64 u)"

definition CacheTTL_urlCache :: nat where
  "CacheTTL_urlCache = 3600"




section \<open>Cache service\<close>

text \<open>
  \<open>CacheService\<close> over a Redis client. The client holds its entries (key, value, TTL in
  seconds; the newest first) and a schedule \<open>faults\<close>: each command takes the head of the
  schedule and throws when it is \<open>True\<close>; an empty schedule means no fault. Expiry and
  the client's connection events are outside the model. \<open>KEYS\<close> matches a glob; of
  Redis's pattern language \<open>*\<close> and \<open>?\<close> are modelled, which covers the one pattern the
  code uses, \<open>media:*\<close>. \<open>JSON.parse\<close> and \<open>JSON.stringify\<close> are the parameters \<open>parse\<close>
  (it throws, or returns a value, which may be \<open>null\<close>) and \<open>stringify\<close>.
\<close>

record redis_client =
  entries :: "(string \<times> string \<times> nat) list"
  faults :: "bool list"

record cache_service =
  client :: "redis_client option"
  isConnected :: bool

definition redis_command :: "redis_client \<Rightarrow> bool \<times> redis_client" where
  "redis_command r = (case faults r of [] \<Rightarrow> (False, r) | f # fs \<Rightarrow> (f, r\<lparr>faults := fs\<rparr>))"

definition redis_get :: "string \<Rightarrow> redis_client \<Rightarrow> (error + string option) \<times> redis_client" where
  "redis_get k r =
     (let (thrown, r') = redis_command r
      in if thrown then (Inl RedisError, r')
         else (Inr (map_option fst (map_of (entries r') k)), r'))"

definition redis_setEx :: "string \<Rightarrow> nat \<Rightarrow> string \<Rightarrow> redis_client \<Rightarrow> (error + unit) \<times> redis_client" where
  "redis_setEx k ttl v r =
     (let (thrown, r') = redis_command r
      in if thrown then (Inl RedisError, r')
         else (Inr (), r'\<lparr>entries := (k, v, ttl) # filter (\<lambda>e. fst e \<noteq> k) (entries r')\<rparr>))"

definition redis_del :: "string list \<Rightarrow> redis_client \<Rightarrow> (error + unit) \<times> redis_client" where
  "redis_del ks r =
     (let (thrown, r') = redis_command r
      in if thrown then (Inl RedisError, r')
         else (Inr (), r'\<lparr>entries := filter (\<lambda>e. fst e \<notin> set ks) (entries r')\<rparr>))"

fun glob_match :: "string \<Rightarrow> string \<Rightarrow> bool" where
  "glob_match [] s = (s = [])"
| "glob_match (p # ps) [] = (p = CHR ''*'' \<and> glob_match ps [])"
| "glob_match (p # ps) (c # cs) =
     (if p = CHR ''*'' then glob_match ps (c # cs) \<or> glob_match (p # ps) cs
      else (p = CHR ''?'' \<or> p = c) \<and> glob_match ps cs)"

definition redis_keys :: "string \<Rightarrow> redis_client \<Rightarrow> (error + string list) \<times> redis_client" where
  "redis_keys pat r =
     (let (thrown, r') = redis_command r
      in if thrown then (Inl RedisError, r')
         else (Inr (map fst (filter (\<lambda>e. glob_match pat (fst e)) (entries r'))), r'))"

definition isAvailable :: "cache_service \<Rightarrow> bool" where
  "isAvailable c = (isConnected c \<and> client c \<noteq> None)"

definition cacheService_get_try ::
  "(string \<Rightarrow> error + 'v option) \<Rightarrow> string \<Rightarrow> redis_client \<Rightarrow> (error + 'v option) \<times> redis_client" where
  \<comment> \<open>the body of the \<open>try\<close> block of \<open>get\<close>\<close>
  "cacheService_get_try parse k r =
     (case redis_get k r of
        (Inl e, r') \<Rightarrow> (Inl e, r')
      | (Inr None, r') \<Rightarrow> (Inr None, r')
      | (Inr (Some v), r') \<Rightarrow>
          if v \<noteq> [] then (case parse v of Inl e \<Rightarrow> (Inl e, r') | Inr x \<Rightarrow> (Inr x, r'))
          else (Inr None, r'))"

definition cacheService_get ::
  "(string \<Rightarrow> error + 'v option) \<Rightarrow> string \<Rightarrow> cache_service \<Rightarrow> (error + 'v option) \<times> cache_service" where
  "cacheService_get parse k c =
     (if \<not> isAvailable c then (Inr None, c)
      else
        (case client c of
           None \<Rightarrow> (Inr None, c)
         | Some r \<Rightarrow>
             (case cacheService_get_try parse k r of
                (Inl e, r') \<Rightarrow> (Inr None, c\<lparr>client := Some r'\<rparr>)
              | (Inr x, r') \<Rightarrow> (Inr x, c\<lparr>client := Some r'\<rparr>))))"

definition cacheService_set_try ::
  "('v \<Rightarrow> error + string) \<Rightarrow> string \<Rightarrow> 'v \<Rightarrow> nat \<Rightarrow> redis_client \<Rightarrow> (error + bool) \<times> redis_client" where
  "cacheService_set_try stringify k v ttl r =
     (case stringify v of
        Inl e \<Rightarrow> (Inl e, r)
      | Inr s \<Rightarrow>
          (case redis_setEx k ttl s r of
             (Inl e, r') \<Rightarrow> (Inl e, r')
           | (Inr _, r') \<Rightarrow> (Inr True, r')))"

definition cacheService_set ::
  "('v \<Rightarrow> error + string) \<Rightarrow> string \<Rightarrow> 'v \<Rightarrow> nat \<Rightarrow> cache_service \<Rightarrow> (error + bool) \<times> cache_service" where
  "cacheService_set stringify k v ttl c =
     (if \<not> isAvailable c then (Inr False, c)
      else
        (case client c of
           None \<Rightarrow> (Inr False, c)
         | Some r \<Rightarrow>
             (case cacheService_set_try stringify k v ttl r of
                (Inl e, r') \<Rightarrow> (Inr False, c\<lparr>client := Some r'\<rparr>)
              | (Inr b, r') \<Rightarrow> (Inr b, c\<lparr>client := Some r'\<rparr>))))"

definition cacheService_delete :: "string \<Rightarrow> cache_service \<Rightarrow> (error + bool) \<times> cache_service" where
  "cacheService_delete k c =
     (if \<not> isAvailable c then (Inr False, c)
      else
        (case client c of
           None \<Rightarrow> (Inr False, c)
         | Some r \<Rightarrow>
             (case redis_del [k] r of
                (Inl e, r') \<Rightarrow> (Inr False, c\<lparr>client := Some r'\<rparr>)
              | (Inr _, r') \<Rightarrow> (Inr True, c\<lparr>client := Some r'\<rparr>))))"

definition cacheService_deletePattern_try :: "string \<Rightarrow> redis_client \<Rightarrow> (error + bool) \<times> redis_client" where
  "cacheService_deletePattern_try pat r =
     (case redis_keys pat r of
        (Inl e, r') \<Rightarrow> (Inl e, r')
      | (Inr ks, r') \<Rightarrow>
          if length ks > 0
          then (case redis_del ks r' of
                  (Inl e, r'') \<Rightarrow> (Inl e, r'')
                | (Inr _, r'') \<Rightarrow> (Inr True, r''))
          else (Inr True, r'))"

definition cacheService_deletePattern :: "string \<Rightarrow> cache_service \<Rightarrow> (error + bool) \<times> cache_service" where
  "cacheService_deletePattern pat c =
     (if \<not> isAvailable c then (Inr False, c)
      else
        (case client c of
           None \<Rightarrow> (Inr False, c)
         | Some r \<Rightarrow>
             (case cacheService_deletePattern_try pat r of
                (Inl e, r') \<Rightarrow> (Inr False, c\<lparr>client := Some r'\<rparr>)
              | (Inr b, r') \<Rightarrow> (Inr b, c\<lparr>client := Some r'\<rparr>))))"

definition invalidateMediaCaches :: "cache_service \<Rightarrow> (error + unit) \<times> cache_service" where
  "invalidateMediaCaches c =
     (case cacheService_deletePattern ''media:*'' c of
        (Inl e, c1) \<Rightarrow> (Inl e, c1)
      | (Inr _, c1) \<Rightarrow>
          (case cacheService_delete ''stats:media'' c1 of
             (Inl e, c2) \<Rightarrow> (Inl e, c2)
           | (Inr _, c2) \<Rightarrow> (Inr (), c2)))"

definition getOrSet ::
  "(string \<Rightarrow> error + 'v option) \<Rightarrow> ('v \<Rightarrow> error + string) \<Rightarrow> string \<Rightarrow> (unit \<Rightarrow> error + 'v)
     \<Rightarrow> nat \<Rightarrow> cache_service \<Rightarrow> (error + 'v) \<times> cache_service" where
  "getOrSet parse stringify k fetchFn ttl c =
     (case cacheService_get parse k c of
        (Inl e, c1) \<Rightarrow> (Inl e, c1)
      | (Inr (Some cached), c1) \<Rightarrow> (Inr cached, c1)
      | (Inr None, c1) \<Rightarrow>
          (case fetchFn () of
             Inl e \<Rightarrow> (Inl e, c1)
           | Inr v \<Rightarrow> (Inr v, snd (cacheService_set stringify k v ttl c1))))"

section \<open>Worker handler\<close>

text \<open>
  \<open>MediaService.createMany\<close> and \<open>processScrapeJob\<close>. The worker's state is the job table,
  the media table and the cache service. \<open>createMany\<close> inserts with \<open>skipDuplicates\<close>:
  a row that conflicts with a row already there (or inserted earlier in the batch) under
  the table's unique constraints, the parameter \<open>uniq\<close>, is skipped. The one database
  error in the model is \<open>updateStatus\<close> on a missing row. Logging, progress
  reporting and the garbage-collection hints change none of the three and are left out;
  the router is \<open>scraperManager_scrape\<close> over the two scrapers.
\<close>

record media_row = scraped_media +
  rowJobId :: nat
  sourceUrl :: string

definition insert_skip_duplicates ::
  "(media_row \<Rightarrow> media_row \<Rightarrow> bool) \<Rightarrow> media_row list \<Rightarrow> media_row list \<Rightarrow> media_row list" where
  "insert_skip_duplicates uniq rows tbl =
     foldl (\<lambda>t r. if list_ex (\<lambda>x. uniq x r) t then t else t @ [r]) tbl rows"

definition createMany ::
  "(media_row \<Rightarrow> media_row \<Rightarrow> bool) \<Rightarrow> nat \<Rightarrow> string \<Rightarrow> scraped_media list
     \<Rightarrow> media_row list \<Rightarrow> media_row list" where
  "createMany uniq jid src mediaItems tbl =
     insert_skip_duplicates uniq
       (map (\<lambda>item. \<lparr>mediaUrl = mediaUrl item, mediaType = mediaType item,
                      title = (case title item of None \<Rightarrow> None
                               | Some t \<Rightarrow> if t = [] then None else Some t),
                      rowJobId = jid, sourceUrl = src\<rparr>) mediaItems)
       tbl"

record worker =
  jobTable :: job_table
  mediaTable :: "media_row list"
  cache :: cache_service

record 'v collaborators =
  uniqueConstraint :: "media_row \<Rightarrow> media_row \<Rightarrow> bool"
  jsonParse :: "string \<Rightarrow> error + 'v option"
  jsonStringify :: "'v \<Rightarrow> error + string"
  cheerioScraper :: "string \<Rightarrow> scrape_result"
  puppeteerScraper :: "string \<Rightarrow> error + scrape_result"

definition save_result ::
  "scraped_media list collaborators \<Rightarrow> nat \<Rightarrow> string \<Rightarrow> string \<Rightarrow> scrape_result \<Rightarrow> worker
     \<Rightarrow> (error + unit) \<times> worker" where
  \<comment> \<open>\<open>processScrapeJob\<close> from the router's result on\<close>
  "save_result env jid u cacheKey result w =
     (if \<not> success result
      then (Inl (ScrapeError (case error result of
                                None \<Rightarrow> ''Scraping failed''
                              | Some m \<Rightarrow> if m = [] then ''Scraping failed'' else m)), w)
      else if length (media result) > 0
      then
        (let w1 = w\<lparr>mediaTable := createMany (uniqueConstraint env) jid u (media result) (mediaTable w)\<rparr>
         in case cacheService_set (jsonStringify env) cacheKey (media result) CacheTTL_urlCache (cache w1) of
              (Inl e, c1) \<Rightarrow> (Inl e, w1\<lparr>cache := c1\<rparr>)
            | (Inr _, c1) \<Rightarrow>
                (case invalidateMediaCaches c1 of
                   (Inl e, c2) \<Rightarrow> (Inl e, w1\<lparr>cache := c2\<rparr>)
                 | (Inr _, c2) \<Rightarrow> (Inr (), w1\<lparr>cache := c2\<rparr>)))
      else (Inr (), w))"

definition processScrapeJob ::
  "scraped_media list collaborators \<Rightarrow> nat \<Rightarrow> string \<Rightarrow> worker \<Rightarrow> (error + unit) \<times> worker" where
  "processScrapeJob env jid u w =
     (case updateStatus jid Processing None (jobTable w) of
        Inl e \<Rightarrow> (Inl e, w)
      | Inr tbl \<Rightarrow>
          (let w1 = w\<lparr>jobTable := tbl\<rparr>;
               cacheKey = urlCache u
           in case cacheService_get (jsonParse env) cacheKey (cache w1) of
                (Inl e, c1) \<Rightarrow> (Inl e, w1\<lparr>cache := c1\<rparr>)
              | (Inr cachedResult, c1) \<Rightarrow>
                  (let w2 = w1\<lparr>cache := c1\<rparr>;
                       scraped = save_result env jid u cacheKey
                             (fst (scraperManager_scrape (cheerioScraper env) (puppeteerScraper env) u))
                             w2
                   in case cachedResult of
                        None \<Rightarrow> scraped
                      | Some ms \<Rightarrow>
                          if length ms > 0
                          then (Inr (), w2\<lparr>mediaTable :=
                                  createMany (uniqueConstraint env) jid u ms (mediaTable w2)\<rparr>)
                          else scraped)))"

subsection \<open>Sample collaborators and states\<close>

definition no_parse :: "string \<Rightarrow> error + 'v option" where
  \<comment> \<open>a parser that rejects every text\<close>
  "no_parse s = Inl SyntaxError"

definition unary_stringify :: "nat \<Rightarrow> error + string" where
  "unary_stringify n = Inr (replicate n (CHR ''1''))"


definition cache_offline :: cache_service where
  "cache_offline = \<lparr>client = None, isConnected = False\<rparr>"

definition cache_faulty :: cache_service where
  \<comment> \<open>connected, and the next command throws\<close>
  "cache_faulty = \<lparr>client = Some \<lparr>entries = [], faults = [True]\<rparr>, isConnected = True\<rparr>"








section \<open>HTML extractor: resolving and filtering candidate URLs\<close>

text \<open>
  \<open>CheerioScraper.makeAbsoluteUrl\<close> and \<open>CheerioScraper.isValidMediaUrl\<close>. Node's URL
  parser is outside the repository and enters as two parameters: \<open>parseUrl s\<close> is
  \<open>new URL(s)\<close> and \<open>resolveUrl rel base\<close> is \<open>new URL(rel, base)\<close>, each \<open>None\<close> when the
  constructor throws, otherwise the fields the code reads. \<open>accept_candidate\<close> is the test
  every collected candidate goes through before it is pushed:
  \<open>absoluteUrl && this.isValidMediaUrl(absoluteUrl)\<close>.
\<close>

record url_obj =
  href :: string
  protocol :: string
  hostname :: string
  pathname :: string

definition startsWith :: "string \<Rightarrow> string \<Rightarrow> bool" where
  "startsWith s p = (take (length p) s = p)"

fun str_includes :: "string \<Rightarrow> string \<Rightarrow> bool" where
  "str_includes [] sub = (sub = [])"
| "str_includes (c # cs) sub = (take (length sub) (c # cs) = sub \<or> str_includes cs sub)"

definition lower_char :: "char \<Rightarrow> char" where
  "lower_char c =
     (let n = (of_char c :: nat) in if 65 \<le> n \<and> n \<le> 90 then char_of (n + 32) else c)"

definition toLowerCase :: "string \<Rightarrow> string" where
  "toLowerCase s = map lower_char s"

definition blockedDomains :: "string list" where
  "blockedDomains = [''google-analytics.com'', ''doubleclick.net'', ''facebook.com/tr'']"

definition makeAbsoluteUrl ::
  "(string \<Rightarrow> url_obj option) \<Rightarrow> (string \<Rightarrow> string \<Rightarrow> url_obj option) \<Rightarrow> string \<Rightarrow> string
     \<Rightarrow> string option" where
  "makeAbsoluteUrl parseUrl resolveUrl relativeUrl baseUrl =
     (if startsWith relativeUrl ''http://'' \<or> startsWith relativeUrl ''https://''
      then Some relativeUrl
      else if startsWith relativeUrl ''//''
      then (case parseUrl baseUrl of
              None \<Rightarrow> None
            | Some baseUrlObj \<Rightarrow> Some (protocol baseUrlObj @ relativeUrl))
      else (case resolveUrl relativeUrl baseUrl of
              None \<Rightarrow> None
            | Some resolved \<Rightarrow> Some (href resolved)))"

definition isValidMediaUrl :: "(string \<Rightarrow> url_obj option) \<Rightarrow> string \<Rightarrow> bool" where
  "isValidMediaUrl parseUrl u =
     (case parseUrl u of
        None \<Rightarrow> False
      | Some urlObj \<Rightarrow>
          if protocol urlObj = ''data:'' then False
          else if list_ex (\<lambda>domain. str_includes (hostname urlObj) domain) blockedDomains then False
          else if str_includes (toLowerCase (pathname urlObj)) ''1x1''
                  \<or> str_includes (toLowerCase (pathname urlObj)) ''pixel'' then False
          else True)"

definition accept_candidate ::
  "(string \<Rightarrow> url_obj option) \<Rightarrow> (string \<Rightarrow> string \<Rightarrow> url_obj option) \<Rightarrow> string \<Rightarrow> string
     \<Rightarrow> string option" where
  "accept_candidate parseUrl resolveUrl src baseUrl =
     (case makeAbsoluteUrl parseUrl resolveUrl src baseUrl of
        None \<Rightarrow> None
      | Some absoluteUrl \<Rightarrow>
          if absoluteUrl \<noteq> [] \<and> isValidMediaUrl parseUrl absoluteUrl then Some absoluteUrl
          else None)"

text \<open>
  The renderer's path (backend/src/scrapers/puppeteer.scraper.ts), for comparison: in the
  page it collects a candidate only when \<open>src && src.startsWith("http")\<close>, and then
  applies the same \<open>isValidMediaUrl\<close>.
\<close>

definition renderer_collects :: "string \<Rightarrow> bool" where
  "renderer_collects src = (src \<noteq> [] \<and> startsWith src ''http'')"

text \<open>
  What the specification asks of a scheme: \<open>http:\<close> or \<open>https:\<close>.
\<close>

definition http_scheme :: "string \<Rightarrow> bool" where
  "http_scheme p = (p = ''http:'' \<or> p = ''https:'')"

subsection \<open>Node's answers on five sample URLs\<close>

definition node_url :: "string \<Rightarrow> url_obj option" where
  "node_url s =
     (if s = ''https://x.com/p''
      then Some \<lparr>href = ''https://x.com/p'', protocol = ''https:'',
                 hostname = ''x.com'', pathname = ''/p''\<rparr>
      else if s = ''ftp://files.example/a.jpg''
      then Some \<lparr>href = ''ftp://files.example/a.jpg'', protocol = ''ftp:'',
                 hostname = ''files.example'', pathname = ''/a.jpg''\<rparr>
      else if s = ''data:image/png;base64,AAAA''
      then Some \<lparr>href = ''data:image/png;base64,AAAA'', protocol = ''data:'',
                 hostname = [], pathname = ''image/png;base64,AAAA''\<rparr>
      else if s = ''https://www.google-analytics.com/collect''
      then Some \<lparr>href = ''https://www.google-analytics.com/collect'', protocol = ''https:'',
                 hostname = ''www.google-analytics.com'', pathname = ''/collect''\<rparr>
      else if s = ''https://cdn.example/img/Pixel.gif''
      then Some \<lparr>href = ''https://cdn.example/img/Pixel.gif'', protocol = ''https:'',
                 hostname = ''cdn.example'', pathname = ''/img/Pixel.gif''\<rparr>
      else None)"

definition node_resolve :: "string \<Rightarrow> string \<Rightarrow> url_obj option" where
  \<comment> \<open>each sample is absolute, so resolving it against the page URL gives the sample itself\<close>
  "node_resolve rel base = (if base = ''https://x.com/p'' then node_url rel else None)"

section \<open>Basic authentication middleware\<close>

text \<open>
  \<open>basicAuth\<close> (backend/src/middleware/auth.middleware.ts) and \<open>UserService.authenticate\<close>.
  \<open>split_on c s\<close> is \<open>s.split(c)\<close> for a one-character separator; \<open>nth_opt\<close> is indexing,
  \<open>None\<close> for \<open>undefined\<close>. \<open>Buffer.from(_, "base64").toString("utf-8")\<close> is the
  parameter \<open>decode\<close> and \<open>bcrypt.compare\<close> the parameter \<open>compare\<close>. The users table is
  the list of its rows; \<open>username\<close> is unique. The user service catches its own errors
  and returns \<open>null\<close>, so the middleware's 500 is reached only when the token is
  \<open>undefined\<close>.
\<close>

fun split_on :: "char \<Rightarrow> string \<Rightarrow> string list" where
  "split_on c [] = [[]]"
| "split_on c (x # xs) =
     (if x = c then [] # split_on c xs
      else (case split_on c xs of
              [] \<Rightarrow> [[x]]
            | seg # segs \<Rightarrow> (x # seg) # segs))"

fun nth_opt :: "'a list \<Rightarrow> nat \<Rightarrow> 'a option" where
  "nth_opt [] n = None"
| "nth_opt (x # xs) 0 = Some x"
| "nth_opt (x # xs) (Suc n) = nth_opt xs n"

record user_row =
  userRowId :: nat
  username :: string
  passwordHash :: string

datatype auth_result =
    Respond nat string
  | Next nat string

definition findByUsername :: "user_row list \<Rightarrow> string \<Rightarrow> user_row option" where
  "findByUsername users name = find (\<lambda>row. username row = name) users"

definition verifyPassword :: "(string \<Rightarrow> string \<Rightarrow> bool) \<Rightarrow> user_row list \<Rightarrow> string \<Rightarrow> string \<Rightarrow> bool" where
  "verifyPassword compare users name password =
     (case findByUsername users name of
        None \<Rightarrow> False
      | Some user \<Rightarrow> compare password (passwordHash user))"

definition authenticate ::
  "(string \<Rightarrow> string \<Rightarrow> bool) \<Rightarrow> user_row list \<Rightarrow> string \<Rightarrow> string \<Rightarrow> user_row option" where
  "authenticate compare users name password =
     (if \<not> verifyPassword compare users name password then None
      else findByUsername users name)"

definition credentials_of :: "(string \<Rightarrow> string) \<Rightarrow> string \<Rightarrow> (string option \<times> string option) option" where
  \<comment> \<open>lines 25 to 27: the token after the first space, decoded, split on every colon\<close>
  "credentials_of decode authHeader =
     (case nth_opt (split_on (CHR '' '') authHeader) 1 of
        None \<Rightarrow> None
      | Some base64Credentials \<Rightarrow>
          (let credentials = decode base64Credentials;
               segments = split_on (CHR '':'') credentials
           in Some (nth_opt segments 0, nth_opt segments 1)))"

definition falsy :: "string option \<Rightarrow> bool" where
  "falsy s = (case s of None \<Rightarrow> True | Some t \<Rightarrow> t = [])"

definition basicAuth ::
  "(string \<Rightarrow> string) \<Rightarrow> (string \<Rightarrow> string \<Rightarrow> bool) \<Rightarrow> user_row list \<Rightarrow> string option
     \<Rightarrow> auth_result" where
  "basicAuth decode compare users authorization =
     (case authorization of
        None \<Rightarrow> Respond 401 ''Missing or invalid Authorization header''
      | Some authHeader \<Rightarrow>
          if authHeader = [] \<or> \<not> startsWith authHeader ''Basic ''
          then Respond 401 ''Missing or invalid Authorization header''
          else
            (case credentials_of decode authHeader of
               None \<Rightarrow> Respond 500 ''Authentication failed''
             | Some (name, password) \<Rightarrow>
                 if falsy name \<or> falsy password
                 then Respond 401 ''Invalid credentials format''
                 else
                   (case authenticate compare users (case name of Some n \<Rightarrow> n | None \<Rightarrow> [])
                           (case password of Some p \<Rightarrow> p | None \<Rightarrow> []) of
                      None \<Rightarrow> Respond 401 ''Invalid username or password''
                    | Some user \<Rightarrow> Next (userRowId user) (username user))))"

subsection \<open>bcrypt, and two users whose password has a colon\<close>

text \<open>
  bcryptjs is outside the repository. Of a password it hashes the first 72 bytes and
  nothing after them, and \<open>compare\<close> accepts exactly the passwords that agree with the
  hashed one on those bytes. \<open>bcrypt_hash\<close> and \<open>bcrypt_compare\<close> say this and leave
  salt and cost out: the hash stands for the 72 bytes it was made from.
\<close>

definition bcrypt_hash :: "string \<Rightarrow> string" where
  "bcrypt_hash password = take 72 password"

definition bcrypt_compare :: "string \<Rightarrow> string \<Rightarrow> bool" where
  "bcrypt_compare password hash = (take 72 password = hash)"

definition users_sample :: "user_row list" where
  "users_sample = [\<lparr>userRowId = 1, username = ''admin'', passwordHash = bcrypt_hash ''pa:ss''\<rparr>,
                   \<lparr>userRowId = 2, username = ''bob'', passwordHash = bcrypt_hash ''hunter2''\<rparr>]"

definition decode_sample :: "string \<Rightarrow> string" where
  \<comment> \<open>base64 decoding on the two tokens used below\<close>
  "decode_sample tok =
     (if tok = ''YWRtaW46cGE6c3M='' then ''admin:pa:ss''
      else if tok = ''Ym9iOmh1bnRlcjI='' then ''bob:hunter2''
      else [])"

definition long_password :: string where
  \<comment> \<open>72 times \<open>x\<close>, then \<open>:rest\<close>: the colon is byte 73\<close>
  "long_password = replicate 72 (CHR ''x'') @ '':rest''"

definition users_long :: "user_row list" where
  "users_long = [\<lparr>userRowId = 1, username = ''admin'', passwordHash = bcrypt_hash long_password\<rparr>]"

definition long_token :: string where
  \<comment> \<open>the base64 text of \<open>admin:\<close> followed by the long password\<close>
  "long_token = ''YWRtaW46eHh4eHh4eHh4eHh4eHh4eHh4eHh4eHh4eHh4eHh4eHh4eHh4eHh4eHh4eHh4eHh4eHh4eHh4eHh4eHh4eHh4eHh4eHh4eHh4OnJlc3Q=''"

definition decode_long :: "string \<Rightarrow> string" where
  "decode_long tok = (if tok = long_token then ''admin:'' @ long_password else [])"
section \<open>Terminal status of a job\<close>

text \<open>
  What the two outcome handlers do when their increment brings the counters to the total:
  the status is \<open>failed\<close> exactly when the failed counter equals the total, the date is
  set and the entry is deleted. The \<open>completed\<close> handler writes \<open>completed\<close> without
  looking at the failed counter; it has just counted one completion, so at equality the
  failed counter is below the total.
\<close>

lemma outcome_handlers_at_reach:
  assumes trk: "jobCompletionTracker s j = Some t"
      and job: "jobs s j = Some jb"
      and reach: "completed t + failed t + 1 = total t"
  shows "(let s' = snd (on_completed j now s) in
            fst (on_completed j now s) = Inr ()
          \<and> jobs s' j = Some (jb\<lparr>status := (if failed t = total t then Failed else Completed),
                                  completedAt := Some now\<rparr>)
          \<and> jobCompletionTracker s' j = None)
       \<and> (let s' = snd (on_failed j now s) in
            fst (on_failed j now s) = Inr ()
          \<and> jobs s' j = Some (jb\<lparr>status := (if failed t + 1 = total t then Failed else Completed),
                                  completedAt := Some now\<rparr>)
          \<and> jobCompletionTracker s' j = None)"
proof -
  from reach have below: "failed t \<noteq> total t" by arith
  have c: "snd (on_completed j now s) =
             s\<lparr>jobs := (jobs s)(j \<mapsto> jb\<lparr>status := Completed, completedAt := Some now\<rparr>),
               jobCompletionTracker := (jobCompletionTracker s)(j := None),
               terminalWrites := terminalWrites s @ [(j, Completed, now)]\<rparr>
           \<and> fst (on_completed j now s) = Inr ()"
    using trk job reach
    by (simp add: on_completed_def finish_job_def updateStatus_def Let_def)
  have f: "snd (on_failed j now s) =
             s\<lparr>jobs := (jobs s)(j \<mapsto> jb\<lparr>status := (if failed t + 1 = total t then Failed else Completed),
                                          completedAt := Some now\<rparr>),
               jobCompletionTracker := (jobCompletionTracker s)(j := None),
               terminalWrites := terminalWrites s @
                  [(j, if failed t + 1 = total t then Failed else Completed, now)]\<rparr>
           \<and> fst (on_failed j now s) = Inr ()"
    using trk job reach
    by (simp add: on_failed_def finish_job_def updateStatus_def Let_def)
  show ?thesis
    using c f below by (simp add: Let_def)
qed

text \<open>
  Claim C1 asks for the status \<open>failed\<close> if and only if every URL failed. The tracker's
  \<open>failed\<close> listener counts every \<open>failed\<close> event, also the one of an attempt that the
  queue retries. A job of two URLs \<open>a\<close> and \<open>b\<close>: both items start, \<open>a\<close> fails, is
  retried and fails again, then \<open>b\<close> completes. The entry is created with total 2, the
  length of the job's URL list; the two failures of \<open>a\<close> bring the failed counter to 2;
  the job is written \<open>failed\<close> at time 9 and the entry is deleted, so the completion of
  \<open>b\<close> finds no entry and changes nothing. The job ends \<open>failed\<close> with one terminal
  write, though \<open>b\<close> never failed and did complete.
\<close>

theorem failed_written_though_a_url_completed:
  "tracker_view (mrun (concat (map deliver (take 2 a_fails_twice_b_completes))) loop_two) 1
     = Some (length (urls job_two), 0, 0)
   \<and> tracker_view (mrun (concat (map deliver (take 4 a_fails_twice_b_completes))) loop_two) 1
     = Some (2, 0, 1)
   \<and> job_view (ctl (mrun (concat (map deliver (take 5 a_fails_twice_b_completes))) loop_two)) 1
     = Some (Failed, Some 9)
   \<and> job_view (ctl (mrun (concat (map deliver a_fails_twice_b_completes)) loop_two)) 1
     = Some (Failed, Some 9)
   \<and> terminalWrites (ctl (mrun (concat (map deliver a_fails_twice_b_completes)) loop_two))
     = [(1, Failed, 9)]
   \<and> suspended (mrun (concat (map deliver a_fails_twice_b_completes)) loop_two) = []
   \<and> url_failed a_fails_twice_b_completes 1 ''https://a.example/''
   \<and> \<not> url_failed a_fails_twice_b_completes 1 ''https://b.example/''
   \<and> url_completed a_fails_twice_b_completes 1 ''https://b.example/''
   \<and> \<not> every_url_failed a_fails_twice_b_completes 1 (urls job_two)"
  by (simp add: a_fails_twice_b_completes_def loop_two_def job_two_def tracker_view_def
        job_view_def active_start_def completed_start_def failed_start_def spawn_def
        begin_processing_def updateStatus_def Let_def url_failed_def url_completed_def
        every_url_failed_def isFinalAttempt_def attempts_configured_def)

section \<open>The tracker over every interleaving\<close>

lemma to_completion_step:
  assumes "suspended s = []"
  shows "mrun (to_completion e) s = \<lparr>ctl = step e (ctl s), suspended = []\<rparr>"
proof (cases e)
  case (EvProcess j)
  then show ?thesis using assms by (cases s) simp
next
  case (EvActive j)
  then show ?thesis using assms
    by (cases s) (auto simp: active_start_def completed_start_def failed_start_def spawn_def Let_def on_active_def split: option.splits)
next
  case (EvCompleted j now)
  then show ?thesis using assms
    by (cases s) (auto simp: active_start_def completed_start_def failed_start_def spawn_def Let_def on_completed_def finish_job_def split: option.splits sum.splits)
next
  case (EvFailed j now)
  then show ?thesis using assms
    by (cases s) (auto simp: active_start_def completed_start_def failed_start_def spawn_def Let_def on_failed_def finish_job_def split: option.splits sum.splits)
qed

lemma waiting_on_iff:
  "waiting_on s j \<longleftrightarrow>
     (Delete j \<in> set (suspended s) \<or> (\<exists>st now. Write j st now \<in> set (suspended s)))"
proof
  assume "waiting_on s j"
  then obtain k where k: "k \<in> set (suspended s)"
    and a: "(case k of SetEntry _ \<Rightarrow> False | Write i _ _ \<Rightarrow> i = j | Delete i \<Rightarrow> i = j)"
    by (auto simp: waiting_on_def list_ex_iff)
  show "Delete j \<in> set (suspended s) \<or> (\<exists>st now. Write j st now \<in> set (suspended s))"
  proof (cases k)
    case (SetEntry i)
    with a show ?thesis by simp
  next
    case (Write i st now)
    with a k have "Write j st now \<in> set (suspended s)" by simp
    then show ?thesis by blast
  next
    case (Delete i)
    with a k show ?thesis by simp
  qed
next
  assume "Delete j \<in> set (suspended s) \<or> (\<exists>st now. Write j st now \<in> set (suspended s))"
  then show "waiting_on s j"
    by (force simp: waiting_on_def list_ex_iff)
qed

lemma begin_processing_dom: "jobs c j \<noteq> None \<Longrightarrow> jobs (snd (begin_processing i c)) j \<noteq> None"
  by (auto simp: begin_processing_def updateStatus_def split: option.splits)

lemma begin_processing_tracker:
  "jobCompletionTracker (snd (begin_processing i c)) = jobCompletionTracker c"
  by (auto simp: begin_processing_def updateStatus_def split: option.splits)

lemma loop_ok_process: "loop_ok s \<Longrightarrow> loop_ok (mstep (MProcess i) s)"
  unfolding loop_ok_def waiting_on_iff
  using begin_processing_dom [of "ctl s" _ i]
  by (simp add: begin_processing_tracker)

lemma loop_ok_active: "loop_ok s \<Longrightarrow> loop_ok (mstep (MActive i) s)"
  unfolding loop_ok_def waiting_on_iff
  by (auto simp: active_start_def completed_start_def failed_start_def spawn_def Let_def split: option.splits)

lemma loop_ok_completed: "loop_ok s \<Longrightarrow> loop_ok (mstep (MCompleted i now) s)"
  unfolding loop_ok_def waiting_on_iff
  by (cases "jobCompletionTracker (ctl s) i") (auto simp: active_start_def completed_start_def failed_start_def spawn_def Let_def)

lemma loop_ok_failed: "loop_ok s \<Longrightarrow> loop_ok (mstep (MFailed i now) s)"
  unfolding loop_ok_def waiting_on_iff
  by (cases "jobCompletionTracker (ctl s) i") (auto simp: active_start_def completed_start_def failed_start_def spawn_def Let_def)

lemma loop_ok_resume:
  assumes ok: "loop_ok s"
  shows "loop_ok (mstep (MResume k) s)"
proof (cases "k \<in> set (suspended s)")
  case False
  with ok show ?thesis by simp
next
  case True
  show ?thesis
  proof (cases k)
    case (SetEntry i)
    have keep: "\<And>x. x \<noteq> SetEntry i \<Longrightarrow> x \<in> set (remove1 (SetEntry i) (suspended s)) \<longleftrightarrow> x \<in> set (suspended s)"
      by simp
    from ok True SetEntry show ?thesis
      unfolding loop_ok_def waiting_on_iff
      by (cases "jobs (ctl s) i") (auto simp: spawn_def keep)
  next
    case (Write i st now)
    from ok True Write obtain jb where jb: "jobs (ctl s) i = Some jb"
      unfolding loop_ok_def by blast
    have keep: "\<And>x. x \<noteq> Write i st now \<Longrightarrow> x \<in> set (remove1 (Write i st now) (suspended s)) \<longleftrightarrow> x \<in> set (suspended s)"
      by simp
    have sub: "\<And>x. x \<in> set (remove1 (Write i st now) (suspended s)) \<Longrightarrow> x \<in> set (suspended s)"
      by (meson notin_set_remove1)
    show ?thesis
      unfolding loop_ok_def waiting_on_iff
    proof (intro conjI allI impI)
      fix j t
      assume e: "jobCompletionTracker (ctl (mstep (MResume k) s)) j = Some t"
      with True Write jb have e0: "jobCompletionTracker (ctl s) j = Some t"
        by (simp add: spawn_def updateStatus_def)
      with ok have j0: "jobs (ctl s) j \<noteq> None"
        and d: "completed t + failed t < total t \<or> (completed t = 0 \<and> failed t = 0)
                 \<or> Delete j \<in> set (suspended s) \<or> (\<exists>st now. Write j st now \<in> set (suspended s))"
        unfolding loop_ok_def waiting_on_iff by blast+
      from j0 True Write jb show "jobs (ctl (mstep (MResume k) s)) j \<noteq> None"
        by (simp add: spawn_def updateStatus_def)
      show "completed t + failed t < total t \<or> (completed t = 0 \<and> failed t = 0)
              \<or> Delete j \<in> set (suspended (mstep (MResume k) s))
              \<or> (\<exists>st now. Write j st now \<in> set (suspended (mstep (MResume k) s)))"
      proof (cases "i = j")
        case eq: True
        with True Write jb show ?thesis by (simp add: spawn_def updateStatus_def)
      next
        case ne: False
        from d consider "completed t + failed t < total t \<or> (completed t = 0 \<and> failed t = 0)"
          | "Delete j \<in> set (suspended s)" | st' now' where "Write j st' now' \<in> set (suspended s)"
          by blast
        then show ?thesis
        proof cases
          case 1
          then show ?thesis by blast
        next
          case 2
          with True Write jb keep [of "Delete j"] show ?thesis
            by (simp add: spawn_def updateStatus_def)
        next
          case 3
          with ne keep [of "Write j st' now'"] have "Write j st' now' \<in> set (remove1 (Write i st now) (suspended s))"
            by simp
          with True Write jb show ?thesis
            by (auto simp: spawn_def updateStatus_def)
        qed
      qed
    next
      fix j st' now'
      assume w: "Write j st' now' \<in> set (suspended (mstep (MResume k) s))"
      with True Write jb have "Write j st' now' \<in> set (remove1 (Write i st now) (suspended s))"
        by (simp add: spawn_def updateStatus_def)
      then have "Write j st' now' \<in> set (suspended s)" by (rule sub)
      with ok have "jobs (ctl s) j \<noteq> None" unfolding loop_ok_def by blast
      with True Write jb show "jobs (ctl (mstep (MResume k) s)) j \<noteq> None"
        by (simp add: spawn_def updateStatus_def)
    qed
  next
    case (Delete i)
    have keep: "\<And>x. x \<noteq> Delete i \<Longrightarrow> x \<in> set (remove1 (Delete i) (suspended s)) \<longleftrightarrow> x \<in> set (suspended s)"
      by simp
    from ok True Delete show ?thesis
      unfolding loop_ok_def waiting_on_iff
      by (auto simp: spawn_def keep)
  qed
qed

lemma loop_ok_mstep: "loop_ok s \<Longrightarrow> loop_ok (mstep m s)"
  by (cases m) (simp_all only: loop_ok_process loop_ok_active loop_ok_completed loop_ok_failed loop_ok_resume)

lemma loop_ok_mrun: "loop_ok s \<Longrightarrow> loop_ok (mrun ms s)"
  by (induction ms arbitrary: s) (simp_all add: loop_ok_mstep)

lemma mstep_writes_le:
  "length (terminalWrites (ctl (mstep m s))) \<le> length (terminalWrites (ctl s)) + 1"
proof (cases m)
  case (MResume k)
  then show ?thesis
    by (cases k)
       (auto simp: spawn_def updateStatus_def split: option.splits)
qed (auto simp: active_start_def completed_start_def failed_start_def spawn_def Let_def
          begin_processing_def updateStatus_def split: option.splits)

lemma mstep_writes_only_by_write:
  assumes "\<forall>j st now. m \<noteq> MResume (Write j st now)"
  shows "terminalWrites (ctl (mstep m s)) = terminalWrites (ctl s)"
proof (cases m)
  case (MResume k)
  with assms show ?thesis
    by (cases k) (auto simp: spawn_def split: option.splits)
qed (auto simp: active_start_def completed_start_def failed_start_def spawn_def Let_def
          begin_processing_def updateStatus_def split: option.splits)

lemma reach_schedules_one_write:
  assumes "jobCompletionTracker (ctl s) j = Some t" "total t \<le> completed t + failed t + 1"
  shows "suspended (mstep (MCompleted j now) s) = suspended s @ [Write j Completed now]"
    and "suspended (mstep (MFailed j now) s)
           = suspended s @ [Write j (if failed t + 1 = total t then Failed else Completed) now]"
  using assms by (simp_all add: completed_start_def failed_start_def spawn_def Let_def)

lemma below_schedules_nothing:
  assumes "jobCompletionTracker (ctl s) j = Some t" "completed t + failed t + 1 < total t"
  shows "suspended (mstep (MCompleted j now) s) = suspended s"
    and "suspended (mstep (MFailed j now) s) = suspended s"
  using assms by (simp_all add: completed_start_def failed_start_def spawn_def Let_def)

lemma write_resumed_writes_once:
  assumes ok: "loop_ok s" and w: "Write j st now \<in> set (suspended s)"
  shows "terminalWrites (ctl (mstep (MResume (Write j st now)) s))
           = terminalWrites (ctl s) @ [(j, st, now)]"
    and "Delete j \<in> set (suspended (mstep (MResume (Write j st now)) s))"
proof -
  from ok w obtain jb where jb: "jobs (ctl s) j = Some jb"
    unfolding loop_ok_def by blast
  with w show "terminalWrites (ctl (mstep (MResume (Write j st now)) s))
           = terminalWrites (ctl s) @ [(j, st, now)]"
    by (simp add: spawn_def updateStatus_def)
  from w jb show "Delete j \<in> set (suspended (mstep (MResume (Write j st now)) s))"
    by (simp add: spawn_def updateStatus_def)
qed

lemma delete_resumed_deletes:
  "Delete j \<in> set (suspended s) \<Longrightarrow>
     jobCompletionTracker (ctl (mstep (MResume (Delete j)) s)) j = None"
  by (simp add: spawn_def)

text \<open>
  Claim C4, as the code has it. Start with an empty tracker and nothing suspended, and
  take any interleaving of the handlers' parts. A tracker entry has
  \<open>completed + failed \<le> total\<close> unless an outcome listener of its job is suspended
  between its increment and its delete. No step performs more than one terminal-status
  write, and only the update of a suspended outcome listener performs one. An outcome
  event whose increment brings the count to the total or past it schedules exactly one
  update; that update, when the store performs it, is one terminal write and is followed
  by the delete of the entry. An outcome event that leaves the count below the total
  schedules nothing. So terminal writes are one for each such event, not one for each
  job.
\<close>

theorem tracker_bound_and_writes_at_awaits:
  assumes init: "jobCompletionTracker (ctl s0) = Map.empty"
      and quiet: "suspended s0 = []"
  shows "(\<forall>j t. jobCompletionTracker (ctl (mrun ms s0)) j = Some t \<longrightarrow>
              completed t + failed t \<le> total t \<or> waiting_on (mrun ms s0) j)
       \<and> (\<forall>m. length (terminalWrites (ctl (mstep m (mrun ms s0))))
                 \<le> length (terminalWrites (ctl (mrun ms s0))) + 1)
       \<and> (\<forall>m. (\<forall>j st now. m \<noteq> MResume (Write j st now)) \<longrightarrow>
              terminalWrites (ctl (mstep m (mrun ms s0))) = terminalWrites (ctl (mrun ms s0)))
       \<and> (\<forall>j t now. jobCompletionTracker (ctl (mrun ms s0)) j = Some t \<and>
                       total t \<le> completed t + failed t + 1 \<longrightarrow>
              suspended (mstep (MCompleted j now) (mrun ms s0))
                = suspended (mrun ms s0) @ [Write j Completed now]
            \<and> suspended (mstep (MFailed j now) (mrun ms s0))
                = suspended (mrun ms s0)
                    @ [Write j (if failed t + 1 = total t then Failed else Completed) now])
       \<and> (\<forall>j t now. jobCompletionTracker (ctl (mrun ms s0)) j = Some t \<and>
                       completed t + failed t + 1 < total t \<longrightarrow>
              suspended (mstep (MCompleted j now) (mrun ms s0)) = suspended (mrun ms s0)
            \<and> suspended (mstep (MFailed j now) (mrun ms s0)) = suspended (mrun ms s0))
       \<and> (\<forall>j st now. Write j st now \<in> set (suspended (mrun ms s0)) \<longrightarrow>
              terminalWrites (ctl (mstep (MResume (Write j st now)) (mrun ms s0)))
                = terminalWrites (ctl (mrun ms s0)) @ [(j, st, now)]
            \<and> Delete j \<in> set (suspended (mstep (MResume (Write j st now)) (mrun ms s0))))
       \<and> (\<forall>j. Delete j \<in> set (suspended (mrun ms s0)) \<longrightarrow>
              jobCompletionTracker (ctl (mstep (MResume (Delete j)) (mrun ms s0))) j = None)"
proof -
  have "loop_ok s0"
    using init quiet by (simp add: loop_ok_def)
  then have ok: "loop_ok (mrun ms s0)"
    by (rule loop_ok_mrun)
  have bound: "\<forall>j t. jobCompletionTracker (ctl (mrun ms s0)) j = Some t \<longrightarrow>
              completed t + failed t \<le> total t \<or> waiting_on (mrun ms s0) j"
  proof (intro allI impI)
    fix j t
    assume "jobCompletionTracker (ctl (mrun ms s0)) j = Some t"
    with ok have "completed t + failed t < total t \<or> (completed t = 0 \<and> failed t = 0)
                    \<or> waiting_on (mrun ms s0) j"
      unfolding loop_ok_def by blast
    then show "completed t + failed t \<le> total t \<or> waiting_on (mrun ms s0) j"
      by auto
  qed
  have one: "\<forall>m. length (terminalWrites (ctl (mstep m (mrun ms s0))))
                 \<le> length (terminalWrites (ctl (mrun ms s0))) + 1"
    by (rule allI) (rule mstep_writes_le)
  have only: "\<forall>m. (\<forall>j st now. m \<noteq> MResume (Write j st now)) \<longrightarrow>
              terminalWrites (ctl (mstep m (mrun ms s0))) = terminalWrites (ctl (mrun ms s0))"
    by (intro allI impI) (rule mstep_writes_only_by_write)
  have reach: "\<forall>j t now. jobCompletionTracker (ctl (mrun ms s0)) j = Some t \<and>
                       total t \<le> completed t + failed t + 1 \<longrightarrow>
              suspended (mstep (MCompleted j now) (mrun ms s0))
                = suspended (mrun ms s0) @ [Write j Completed now]
            \<and> suspended (mstep (MFailed j now) (mrun ms s0))
                = suspended (mrun ms s0)
                    @ [Write j (if failed t + 1 = total t then Failed else Completed) now]"
    by (intro allI impI conjI; elim conjE) (rule reach_schedules_one_write; assumption)+
  have below: "\<forall>j t now. jobCompletionTracker (ctl (mrun ms s0)) j = Some t \<and>
                       completed t + failed t + 1 < total t \<longrightarrow>
              suspended (mstep (MCompleted j now) (mrun ms s0)) = suspended (mrun ms s0)
            \<and> suspended (mstep (MFailed j now) (mrun ms s0)) = suspended (mrun ms s0)"
    by (intro allI impI conjI; elim conjE) (rule below_schedules_nothing; assumption)+
  have written: "\<forall>j st now. Write j st now \<in> set (suspended (mrun ms s0)) \<longrightarrow>
              terminalWrites (ctl (mstep (MResume (Write j st now)) (mrun ms s0)))
                = terminalWrites (ctl (mrun ms s0)) @ [(j, st, now)]
            \<and> Delete j \<in> set (suspended (mstep (MResume (Write j st now)) (mrun ms s0)))"
    by (intro allI impI conjI) (rule write_resumed_writes_once [OF ok]; assumption)+
  have deleted: "\<forall>j. Delete j \<in> set (suspended (mrun ms s0)) \<longrightarrow>
              jobCompletionTracker (ctl (mstep (MResume (Delete j)) (mrun ms s0))) j = None"
    by (intro allI impI) (rule delete_resumed_deletes)
  from bound one only reach below written deleted show ?thesis
    by (intro conjI)
qed

theorem tracker_bound_and_writes_at_awaits_witness:
  "jobCompletionTracker (ctl loop_two) = Map.empty
   \<and> suspended loop_two = []
   \<and> tracker_view (mrun [MActive 1, MResume (SetEntry 1), MCompleted 1 5] loop_two) 1
       = Some (2, 1, 0)
   \<and> suspended (mstep (MFailed 1 6) (mrun [MActive 1, MResume (SetEntry 1), MCompleted 1 5] loop_two))
       = [Write 1 Completed 6]"
proof -
  have init: "jobCompletionTracker (ctl loop_two) = Map.empty"
    by (simp add: loop_two_def)
  have quiet: "suspended loop_two = []"
    by (simp add: loop_two_def)
  let ?s = "mrun [MActive 1, MResume (SetEntry 1), MCompleted 1 5] loop_two"
  have trk: "jobCompletionTracker (ctl ?s) 1 = Some \<lparr>total = 2, completed = 1, failed = 0\<rparr>"
    by (simp add: loop_two_def job_two_def active_start_def completed_start_def spawn_def Let_def)
  have susp: "suspended ?s = []"
    by (simp add: loop_two_def job_two_def active_start_def completed_start_def spawn_def Let_def)
  from tracker_bound_and_writes_at_awaits [OF init quiet, of "[MActive 1, MResume (SetEntry 1), MCompleted 1 5]"]
  have "\<forall>j t now. jobCompletionTracker (ctl ?s) j = Some t \<and>
                       total t \<le> completed t + failed t + 1 \<longrightarrow>
              suspended (mstep (MFailed j now) ?s)
                = suspended ?s
                    @ [Write j (if failed t + 1 = total t then Failed else Completed) now]"
    by blast
  from this [rule_format, of 1 "\<lparr>total = 2, completed = 1, failed = 0\<rparr>" 6] trk susp
  have "suspended (mstep (MFailed 1 6) ?s) = [Write 1 Completed 6]"
    by simp
  with init quiet trk show ?thesis
    by (simp add: tracker_view_def)
qed

text \<open>
  Claim C4 as stated fails, in both parts. A job of two URLs: one completion, then a
  failure that brings the count to the total, then, while that listener awaits its
  update, one more failure: the entry reads total 2, completed 1, failed 2, and both
  listeners write a terminal status. And a job of one URL whose item completes and is
  delivered again, every listener running to its end: the entry is deleted, created
  again, and the job gets a second terminal write.
\<close>

theorem tracker_bound_and_single_write_counterexample:
  "tracker_view (mrun [MActive 1, MResume (SetEntry 1), MCompleted 1 5, MFailed 1 6,
                       MFailed 1 7] loop_two) 1
     = Some (2, 1, 2)
   \<and> terminalWrites (ctl (mrun [MActive 1, MResume (SetEntry 1), MCompleted 1 5, MFailed 1 6,
                                 MFailed 1 7, MResume (Write 1 Completed 6),
                                 MResume (Write 1 Failed 7), MResume (Delete 1),
                                 MResume (Delete 1)] loop_two))
     = [(1, Completed, 6), (1, Failed, 7)]
   \<and> terminalWrites (ctl (mrun (concat (map to_completion
          [EvActive 1, EvProcess 1, EvCompleted 1 5, EvActive 1, EvProcess 1, EvCompleted 1 9]))
          loop_one))
     = [(1, Completed, 5), (1, Completed, 9)]"
  by (simp add: tracker_view_def loop_two_def loop_one_def ctl_submitted_def job_two_def
        job_new_def active_start_def completed_start_def failed_start_def spawn_def
        begin_processing_def updateStatus_def Let_def)

section \<open>Job status and \<open>completed_at\<close> over a run of events\<close>

lemma step_jobs_cases:
  assumes "jobs s j = Some jb"
  shows "jobs (step e s) j = Some jb
       \<or> (e = EvProcess j \<and> jobs (step e s) j = Some (jb\<lparr>status := Processing\<rparr>))
       \<or> (\<exists>st now. terminal st \<and> jobs (step e s) j = Some (jb\<lparr>status := st, completedAt := Some now\<rparr>))"
proof (cases e)
  case (EvProcess k)
  with assms show ?thesis
    by (cases "k = j") (auto simp: begin_processing_def updateStatus_def split: option.splits)
next
  case (EvActive k)
  with assms show ?thesis
    by (auto simp: on_active_def split: option.splits)
next
  case (EvCompleted k now)
  with assms show ?thesis
    by (cases "k = j")
       (auto simp: on_completed_def finish_job_def updateStatus_def Let_def terminal_def
             split: option.splits)
next
  case (EvFailed k now)
  with assms show ?thesis
    by (cases "k = j")
       (auto simp: on_failed_def finish_job_def updateStatus_def Let_def terminal_def
             split: option.splits)
qed

lemma step_no_new_rows: "jobs s j = None \<Longrightarrow> jobs (step e s) j = None"
  by (cases e)
     (auto simp: on_active_def on_failed_def on_completed_def begin_processing_def
           finish_job_def updateStatus_def Let_def split: option.splits if_splits)

lemma step_terminal_has_completed_at:
  assumes "terminal_has_completed_at s"
  shows "terminal_has_completed_at (step e s)"
  unfolding terminal_has_completed_at_def
proof (intro allI impI)
  fix j jb'
  assume a: "jobs (step e s) j = Some jb'" and t: "terminal (status jb')"
  show "completedAt jb' \<noteq> None"
  proof (cases "jobs s j")
    case None
    from step_no_new_rows [OF None, of e] a show ?thesis by simp
  next
    case (Some jb)
    from step_jobs_cases [OF Some, of e] a t assms Some show ?thesis
      by (auto simp: terminal_has_completed_at_def terminal_def)
  qed
qed

lemma run_terminal_has_completed_at:
  "terminal_has_completed_at s \<Longrightarrow> terminal_has_completed_at (run evs s)"
  by (induction evs arbitrary: s) (simp_all add: step_terminal_has_completed_at)

lemma step_completedAt_kept:
  "jobs s j = Some jb \<Longrightarrow>
     \<exists>jb'. jobs (step e s) j = Some jb' \<and> (completedAt jb \<noteq> None \<longrightarrow> completedAt jb' \<noteq> None)"
  using step_jobs_cases [of s j jb e] by auto

lemma run_completedAt_kept:
  "jobs s j = Some jb \<Longrightarrow>
     \<exists>jb'. jobs (run evs s) j = Some jb' \<and> (completedAt jb \<noteq> None \<longrightarrow> completedAt jb' \<noteq> None)"
proof (induction evs arbitrary: s jb)
  case Nil
  then show ?case by simp
next
  case (Cons e evs)
  from step_completedAt_kept [OF Cons.prems, of e]
  obtain jb1 where 1: "jobs (step e s) j = Some jb1"
    and k1: "completedAt jb \<noteq> None \<longrightarrow> completedAt jb1 \<noteq> None"
    by blast
  from Cons.IH [OF 1]
  obtain jb' where 2: "jobs (run evs (step e s)) j = Some jb'"
    and k2: "completedAt jb1 \<noteq> None \<longrightarrow> completedAt jb' \<noteq> None"
    by blast
  from 2 k1 k2 show ?case by auto
qed

lemma step_monotone_unless_reprocess:
  assumes "jobs s j = Some jb" "jobs (step e s) j = Some jb'"
      and "\<not> (e = EvProcess j \<and> terminal (status jb))"
  shows "rank (status jb) \<le> rank (status jb')
       \<and> (completed_at_iff_terminal jb \<longrightarrow> completed_at_iff_terminal jb')"
  using step_jobs_cases [OF assms(1), of e] assms(2,3)
  by (cases "status jb")
     (auto simp: completed_at_iff_terminal_def terminal_def)

lemma step_all_completed_at_iff_terminal:
  assumes inv: "all_completed_at_iff_terminal s"
      and guard: "no_reprocess [e] s"
  shows "all_completed_at_iff_terminal (step e s)"
  unfolding all_completed_at_iff_terminal_def
proof (intro allI impI)
  fix j jb'
  assume a: "jobs (step e s) j = Some jb'"
  show "completed_at_iff_terminal jb'"
  proof (cases "jobs s j")
    case None
    from step_no_new_rows [OF None, of e] a show ?thesis by simp
  next
    case (Some jb)
    from guard Some have g: "\<not> (e = EvProcess j \<and> terminal (status jb))"
      by auto
    from inv Some have "completed_at_iff_terminal jb"
      by (simp add: all_completed_at_iff_terminal_def)
    with step_monotone_unless_reprocess [OF Some a g] show ?thesis by simp
  qed
qed

lemma run_all_completed_at_iff_terminal:
  "all_completed_at_iff_terminal s \<Longrightarrow> no_reprocess evs s \<Longrightarrow>
     all_completed_at_iff_terminal (run evs s)"
proof (induction evs arbitrary: s)
  case Nil
  then show ?case by simp
next
  case (Cons e evs)
  from Cons.prems have "no_reprocess [e] s" and rest: "no_reprocess evs (step e s)"
    by simp_all
  with Cons.prems have "all_completed_at_iff_terminal (step e s)"
    by (simp add: step_all_completed_at_iff_terminal)
  with rest Cons.IH show ?case by simp
qed

lemma process_writes_processing:
  "jobs s j = Some jb \<Longrightarrow> jobs (step (EvProcess j) s) j = Some (jb\<lparr>status := Processing\<rparr>)"
  by (simp add: begin_processing_def updateStatus_def)

text \<open>
  Claim C3, as the code has it. Start from a job table in which \<open>completed_at\<close> is set
  exactly on the terminal rows (a new row is \<open>pending\<close> with \<open>completed_at\<close> null). Over
  every list of events a row whose status is \<open>completed\<close> or \<open>failed\<close> has
  \<open>completed_at\<close> set, and \<open>completed_at\<close>, once set, stays set. Over the runs in
  which the worker handler never takes up an item of a job that is already terminal,
  \<open>completed_at\<close> is set exactly on the terminal rows. A single step never lowers a
  job's status in the order pending, processing, completed or failed, unless it is that
  handler on a terminal job. The handler itself writes \<open>processing\<close> whatever the
  status was and leaves \<open>completed_at\<close> as it is.
\<close>

theorem status_and_completed_at_over_runs:
  assumes init: "all_completed_at_iff_terminal s0"
  shows "(\<forall>j jb. jobs (run evs s0) j = Some jb \<and> terminal (status jb) \<longrightarrow> completedAt jb \<noteq> None)
       \<and> (\<forall>s es j jb. jobs s j = Some jb \<and> completedAt jb \<noteq> None \<longrightarrow>
              (\<exists>jb'. jobs (run es s) j = Some jb' \<and> completedAt jb' \<noteq> None))
       \<and> (no_reprocess evs s0 \<longrightarrow> all_completed_at_iff_terminal (run evs s0))
       \<and> (\<forall>e s j jb jb'. jobs s j = Some jb \<and> jobs (step e s) j = Some jb' \<and>
                          \<not> (e = EvProcess j \<and> terminal (status jb)) \<longrightarrow>
              rank (status jb) \<le> rank (status jb'))
       \<and> (\<forall>s j jb. jobs s j = Some jb \<longrightarrow>
              jobs (step (EvProcess j) s) j = Some (jb\<lparr>status := Processing\<rparr>))"
proof -
  from init have "terminal_has_completed_at s0"
    by (auto simp: all_completed_at_iff_terminal_def terminal_has_completed_at_def
          completed_at_iff_terminal_def)
  then have "terminal_has_completed_at (run evs s0)"
    by (rule run_terminal_has_completed_at)
  then have a: "\<forall>j jb. jobs (run evs s0) j = Some jb \<and> terminal (status jb) \<longrightarrow> completedAt jb \<noteq> None"
    unfolding terminal_has_completed_at_def by blast
  have b: "\<forall>s es j jb. jobs s j = Some jb \<and> completedAt jb \<noteq> None \<longrightarrow>
              (\<exists>jb'. jobs (run es s) j = Some jb' \<and> completedAt jb' \<noteq> None)"
    using run_completedAt_kept by blast
  have c: "no_reprocess evs s0 \<longrightarrow> all_completed_at_iff_terminal (run evs s0)"
    using init by (simp add: run_all_completed_at_iff_terminal)
  have d: "\<forall>e s j jb jb'. jobs s j = Some jb \<and> jobs (step e s) j = Some jb' \<and>
                          \<not> (e = EvProcess j \<and> terminal (status jb)) \<longrightarrow>
              rank (status jb) \<le> rank (status jb')"
    using step_monotone_unless_reprocess by blast
  have e: "\<forall>s j jb. jobs s j = Some jb \<longrightarrow>
              jobs (step (EvProcess j) s) j = Some (jb\<lparr>status := Processing\<rparr>)"
    using process_writes_processing by blast
  from a b c d e show ?thesis
    by (intro conjI)
qed

theorem status_and_completed_at_over_runs_witness:
  "all_completed_at_iff_terminal ctl_submitted
   \<and> no_reprocess [EvActive 1, EvProcess 1, EvCompleted 1 5] ctl_submitted
   \<and> all_completed_at_iff_terminal (run [EvActive 1, EvProcess 1, EvCompleted 1 5] ctl_submitted)
   \<and> job_view (run [EvActive 1, EvProcess 1, EvCompleted 1 5] ctl_submitted) 1
       = Some (Completed, Some 5)"
proof -
  have init: "all_completed_at_iff_terminal ctl_submitted"
    by (simp add: all_completed_at_iff_terminal_def ctl_submitted_def job_new_def
          completed_at_iff_terminal_def terminal_def)
  have guard: "no_reprocess [EvActive 1, EvProcess 1, EvCompleted 1 5] ctl_submitted"
    by (simp add: ctl_submitted_def job_new_def terminal_def on_active_def
          begin_processing_def updateStatus_def)
  have view: "job_view (run [EvActive 1, EvProcess 1, EvCompleted 1 5] ctl_submitted) 1
       = Some (Completed, Some 5)"
    by (simp add: job_view_def ctl_submitted_def job_new_def on_active_def on_completed_def
          begin_processing_def finish_job_def updateStatus_def Let_def)
  from status_and_completed_at_over_runs [OF init, of "[EvActive 1, EvProcess 1, EvCompleted 1 5]"]
  have "no_reprocess [EvActive 1, EvProcess 1, EvCompleted 1 5] ctl_submitted \<longrightarrow>
          all_completed_at_iff_terminal (run [EvActive 1, EvProcess 1, EvCompleted 1 5] ctl_submitted)"
    by blast
  with init guard view show ?thesis by blast
qed

text \<open>
  Claim C3 as stated fails. A job of one URL: the first attempt fails, the controller
  marks the job \<open>failed\<close> with \<open>completed_at = 5\<close>; the queue retries the item, and the
  handler's first statement writes \<open>processing\<close>: the status has left a terminal state
  and \<open>completed_at\<close> is set on a row that is not terminal. The same happens when the
  item completed and is delivered a second time.
\<close>

theorem reentry_after_terminal_counterexample:
  "job_view (run [EvActive 1, EvProcess 1, EvFailed 1 5] ctl_submitted) 1
     = Some (Failed, Some 5)
   \<and> job_view (run [EvActive 1, EvProcess 1, EvFailed 1 5, EvActive 1, EvProcess 1] ctl_submitted) 1
     = Some (Processing, Some 5)
   \<and> job_view (run [EvActive 1, EvProcess 1, EvCompleted 1 5] ctl_submitted) 1
     = Some (Completed, Some 5)
   \<and> job_view (run [EvActive 1, EvProcess 1, EvCompleted 1 5, EvActive 1, EvProcess 1] ctl_submitted) 1
     = Some (Processing, Some 5)"
  by (simp add: job_view_def ctl_submitted_def job_new_def on_active_def on_failed_def
        on_completed_def begin_processing_def finish_job_def updateStatus_def Let_def)

section \<open>The extraction router's choice\<close>

text \<open>
  Claim C2. The router returns the static extractor's result, without invoking the
  renderer, when that result succeeded with at least three media items. Otherwise it
  invokes the renderer, and returns the renderer's result exactly when the renderer
  returned, succeeded and found strictly more items than the extractor; when the
  renderer throws, fails or finds no more, it returns the extractor's result.
\<close>

theorem router_returns_better_result:
  "(success (cheerio u) \<and> 3 \<le> length (media (cheerio u)) \<longrightarrow>
      scraperManager_scrape cheerio puppeteer u = (cheerio u, [Cheerio]))
   \<and> (\<not> (success (cheerio u) \<and> 3 \<le> length (media (cheerio u))) \<longrightarrow>
        snd (scraperManager_scrape cheerio puppeteer u) = [Cheerio, Puppeteer]
      \<and> (\<forall>p. puppeteer u = Inr p \<and> success p \<and> length (media (cheerio u)) < length (media p) \<longrightarrow>
              fst (scraperManager_scrape cheerio puppeteer u) = p)
      \<and> (\<forall>p. puppeteer u = Inr p \<and> \<not> (success p \<and> length (media (cheerio u)) < length (media p)) \<longrightarrow>
              fst (scraperManager_scrape cheerio puppeteer u) = cheerio u)
      \<and> (\<forall>e. puppeteer u = Inl e \<longrightarrow>
              fst (scraperManager_scrape cheerio puppeteer u) = cheerio u))"
proof (intro conjI impI)
  assume "success (cheerio u) \<and> 3 \<le> length (media (cheerio u))"
  then show "scraperManager_scrape cheerio puppeteer u = (cheerio u, [Cheerio])"
    by (simp add: scraperManager_scrape_def)
next
  assume low: "\<not> (success (cheerio u) \<and> 3 \<le> length (media (cheerio u)))"
  then show "snd (scraperManager_scrape cheerio puppeteer u) = [Cheerio, Puppeteer]"
    by (cases "puppeteer u") (auto simp: scraperManager_scrape_def Let_def)
  from low show "\<forall>p. puppeteer u = Inr p \<and> success p \<and> length (media (cheerio u)) < length (media p) \<longrightarrow>
              fst (scraperManager_scrape cheerio puppeteer u) = p"
    by (auto simp: scraperManager_scrape_def Let_def)
  from low show "\<forall>p. puppeteer u = Inr p \<and> \<not> (success p \<and> length (media (cheerio u)) < length (media p)) \<longrightarrow>
              fst (scraperManager_scrape cheerio puppeteer u) = cheerio u"
    by (auto simp: scraperManager_scrape_def Let_def)
  from low show "\<forall>e. puppeteer u = Inl e \<longrightarrow>
              fst (scraperManager_scrape cheerio puppeteer u) = cheerio u"
    by (auto simp: scraperManager_scrape_def Let_def)
qed

theorem router_returns_better_result_witness:
  "\<not> (success (static_none ''https://x.example/'')
        \<and> 3 \<le> length (media (static_none ''https://x.example/'')))
   \<and> length (media (fst (scraperManager_scrape static_none rendered_five ''https://x.example/''))) = 5
   \<and> scraperUsed (fst (scraperManager_scrape static_none rendered_five ''https://x.example/'')) = Puppeteer
   \<and> snd (scraperManager_scrape static_none rendered_five ''https://x.example/'') = [Cheerio, Puppeteer]
   \<and> fst (scraperManager_scrape static_none renderer_crashes ''https://x.example/'')
       = static_none ''https://x.example/''"
proof -
  have low: "\<not> (success (static_none ''https://x.example/'')
        \<and> 3 \<le> length (media (static_none ''https://x.example/'')))"
    by (simp add: static_none_def)
  note five = router_returns_better_result [of static_none "''https://x.example/''" rendered_five]
  note crash = router_returns_better_result [of static_none "''https://x.example/''" renderer_crashes]
  from five low have calls:
    "snd (scraperManager_scrape static_none rendered_five ''https://x.example/'') = [Cheerio, Puppeteer]"
    by blast
  from five low have
    "\<forall>p. rendered_five ''https://x.example/'' = Inr p \<and> success p
          \<and> length (media (static_none ''https://x.example/'')) < length (media p) \<longrightarrow>
          fst (scraperManager_scrape static_none rendered_five ''https://x.example/'') = p"
    by blast
  then have res: "fst (scraperManager_scrape static_none rendered_five ''https://x.example/'')
      = \<lparr>url = ''https://x.example/'', success = True,
          media = [img ''https://x.example/1.jpg'', img ''https://x.example/2.jpg'',
                   img ''https://x.example/3.jpg'', img ''https://x.example/4.jpg'',
                   img ''https://x.example/5.jpg''],
          error = None, scraperUsed = Puppeteer\<rparr>"
    by (simp add: rendered_five_def static_none_def)
  from crash low have
    "\<forall>e. renderer_crashes ''https://x.example/'' = Inl e \<longrightarrow>
        fst (scraperManager_scrape static_none renderer_crashes ''https://x.example/'')
          = static_none ''https://x.example/''"
    by blast
  then have swallowed: "fst (scraperManager_scrape static_none renderer_crashes ''https://x.example/'')
          = static_none ''https://x.example/''"
    by (simp add: renderer_crashes_def)
  from low calls res swallowed show ?thesis by simp
qed

section \<open>De-duplication at submission\<close>

lemma set_insertion_order_acc:
  "foldl (\<lambda>seen x. if x \<in> set seen then seen else seen @ [x]) acc xs
     = acc @ first_occurrences (filter (\<lambda>y. y \<notin> set acc) xs)"
proof (induction xs arbitrary: acc)
  case Nil
  then show ?case by simp
next
  case (Cons x xs)
  show ?case
  proof (cases "x \<in> set acc")
    case True
    then show ?thesis using Cons.IH [of acc] by simp
  next
    case False
    have "filter (\<lambda>y. y \<notin> set (acc @ [x])) xs
            = filter (\<lambda>y. y \<noteq> x) (filter (\<lambda>y. y \<notin> set acc) xs)"
      by (induction xs) auto
    then show ?thesis using False Cons.IH [of "acc @ [x]"] by simp
  qed
qed

lemma set_insertion_order_first_occurrences: "set_insertion_order xs = first_occurrences xs"
  using set_insertion_order_acc [of "[]" xs] by (simp add: set_insertion_order_def)

lemma set_first_occurrences: "set (first_occurrences xs) = set xs"
  by (induction xs rule: first_occurrences.induct) auto

lemma distinct_first_occurrences: "distinct (first_occurrences xs)"
  by (induction xs rule: first_occurrences.induct) (auto simp: set_first_occurrences)

lemma length_first_occurrences: "length (first_occurrences xs) = card (set xs)"
  using set_first_occurrences [of xs] distinct_first_occurrences [of xs] distinct_card
  by metis

text \<open>
  Claim C5. For a request of 1 to 100 valid URLs the handler answers 201 with the new
  job's id, status \<open>pending\<close>, \<open>total_urls\<close> the number of distinct URLs and
  \<open>duplicates_removed\<close> the submitted length minus that number; the row it inserts
  holds the submitted URLs with every later copy dropped, in the submitted order, and
  that list is duplicate-free with the same elements.
\<close>

theorem post_scrape_dedupes_in_order:
  assumes valid: "scrapeRequest_valid validUrl us"
  shows "fst (post_scrape validUrl user now us st)
           = Created \<lparr>job_id = nextJobId st, job_status = Pending,
                       total_urls = card (set us),
                       duplicates_removed = length us - card (set us)\<rparr>
       \<and> map_option urls (jobRows (snd (post_scrape validUrl user now us st)) (nextJobId st))
           = Some (first_occurrences us)
       \<and> distinct (first_occurrences us)
       \<and> set (first_occurrences us) = set us"
proof -
  have resp: "fst (post_scrape validUrl user now us st)
           = Created \<lparr>job_id = nextJobId st, job_status = Pending,
                       total_urls = card (set us),
                       duplicates_removed = length us - card (set us)\<rparr>"
    using valid
    by (simp add: post_scrape_def jobService_create_def Let_def
          set_insertion_order_first_occurrences length_first_occurrences)
  have row: "map_option urls (jobRows (snd (post_scrape validUrl user now us st)) (nextJobId st))
           = Some (first_occurrences us)"
    using valid
    by (cases "scrapeQueue st")
       (simp_all add: post_scrape_def jobService_create_def addUrlsToQueue_def Let_def
          set_insertion_order_first_occurrences)
  from resp row show ?thesis
    by (simp add: distinct_first_occurrences set_first_occurrences)
qed

theorem post_scrape_dedupes_in_order_witness:
  "scrapeRequest_valid https_only [''https://u.example/'', ''https://u.example/'', ''https://v.example/'']
   \<and> fst (post_scrape https_only (Some 1) 42
            [''https://u.example/'', ''https://u.example/'', ''https://v.example/''] api_empty)
       = Created \<lparr>job_id = 1, job_status = Pending, total_urls = 2, duplicates_removed = 1\<rparr>
   \<and> map_option urls (jobRows (snd (post_scrape https_only (Some 1) 42
            [''https://u.example/'', ''https://u.example/'', ''https://v.example/''] api_empty)) 1)
       = Some [''https://u.example/'', ''https://v.example/'']"
proof -
  have valid: "scrapeRequest_valid https_only
                 [''https://u.example/'', ''https://u.example/'', ''https://v.example/'']"
    by (simp add: scrapeRequest_valid_def https_only_def)
  have n: "card (set [''https://u.example/'', ''https://u.example/'', ''https://v.example/'']) = 2"
    by simp
  from post_scrape_dedupes_in_order [OF valid, of "Some 1" 42 api_empty] valid n
  show ?thesis
    by (simp add: api_empty_def)
qed

section \<open>The cache service and the worker handler\<close>



lemma cacheService_get_total: "\<exists>x. fst (cacheService_get parse k c) = Inr x"
  by (auto simp: cacheService_get_def split: option.splits prod.splits sum.splits)


lemma cacheService_get_unavailable:
  "\<not> isAvailable c \<Longrightarrow> cacheService_get parse k c = (Inr None, c)"
  by (simp add: cacheService_get_def)

lemma cacheService_get_fault:
  "client c = Some r \<Longrightarrow> faults r = True # fs \<Longrightarrow> fst (cacheService_get parse k c) = Inr None"
  by (simp add: cacheService_get_def cacheService_get_try_def redis_get_def redis_command_def)

lemma cacheService_get_parse_error:
  "client c = Some r \<Longrightarrow> faults r = [] \<Longrightarrow> map_of (entries r) k = Some (v, ttl) \<Longrightarrow>
     parse v = Inl e \<Longrightarrow> fst (cacheService_get parse k c) = Inr None"
  by (simp add: cacheService_get_def cacheService_get_try_def redis_get_def redis_command_def)

lemma cacheService_set_total: "\<exists>b. fst (cacheService_set stringify k v ttl c) = Inr b"
  by (auto simp: cacheService_set_def split: option.splits prod.splits sum.splits)

lemma getOrSet_miss:
  "fst (cacheService_get parse k c) = Inr None \<Longrightarrow> fetchFn () = Inr v \<Longrightarrow>
     getOrSet parse stringify k fetchFn ttl c
       = (Inr v, snd (cacheService_set stringify k v ttl (snd (cacheService_get parse k c))))"
  by (cases "cacheService_get parse k c") (simp add: getOrSet_def)

lemma cacheService_set_stores:
  "client c = Some r \<Longrightarrow> isConnected c \<Longrightarrow> faults r = [] \<Longrightarrow> stringify v = Inr s \<Longrightarrow>
     cacheService_set stringify k v ttl c
       = (Inr True, c\<lparr>client := Some (r\<lparr>entries := (k, s, ttl) # filter (\<lambda>e. fst e \<noteq> k) (entries r)\<rparr>)\<rparr>)"
  by (simp add: cacheService_set_def cacheService_set_try_def isAvailable_def redis_setEx_def
        redis_command_def)


















text \<open>
  Claim C8. A cache read never raises: \<open>get\<close> always returns, and returns \<open>null\<close> when
  the service is unavailable, when the client's read throws, and when the stored text
  does not parse. \<open>getOrSet\<close>, on a \<open>null\<close> read, returns the value of the supplied
  function unchanged and leaves the cache as \<open>set\<close> of that value leaves it; \<open>set\<close>
  itself never raises, and with the client connected and no fault it stores the text
  under the key with the TTL.
\<close>

theorem cache_reads_never_raise:
  "(\<exists>x. fst (cacheService_get parse k c) = Inr x)
   \<and> (\<not> isAvailable c \<longrightarrow> cacheService_get parse k c = (Inr None, c))
   \<and> (\<forall>r fs. client c = Some r \<and> faults r = True # fs \<longrightarrow>
          fst (cacheService_get parse k c) = Inr None)
   \<and> (\<forall>r v t e. client c = Some r \<and> faults r = [] \<and> map_of (entries r) k = Some (v, t)
                  \<and> parse v = Inl e \<longrightarrow>
          fst (cacheService_get parse k c) = Inr None)
   \<and> (\<forall>v. fst (cacheService_get parse k c) = Inr None \<and> fetchFn () = Inr v \<longrightarrow>
          getOrSet parse stringify k fetchFn ttl c
            = (Inr v, snd (cacheService_set stringify k v ttl (snd (cacheService_get parse k c)))))
   \<and> (\<forall>v. \<exists>b. fst (cacheService_set stringify k v ttl c) = Inr b)
   \<and> (\<forall>r v s. client c = Some r \<and> isConnected c \<and> faults r = [] \<and> stringify v = Inr s \<longrightarrow>
          (\<exists>r'. client (snd (cacheService_set stringify k v ttl c)) = Some r'
                \<and> map_of (entries r') k = Some (s, ttl)))"
proof (intro conjI)
  show "\<exists>x. fst (cacheService_get parse k c) = Inr x"
    by (rule cacheService_get_total)
  show "\<not> isAvailable c \<longrightarrow> cacheService_get parse k c = (Inr None, c)"
    by (simp add: cacheService_get_unavailable)
  show "\<forall>r fs. client c = Some r \<and> faults r = True # fs \<longrightarrow>
          fst (cacheService_get parse k c) = Inr None"
    using cacheService_get_fault by blast
  show "\<forall>r v t e. client c = Some r \<and> faults r = [] \<and> map_of (entries r) k = Some (v, t)
                  \<and> parse v = Inl e \<longrightarrow>
          fst (cacheService_get parse k c) = Inr None"
    using cacheService_get_parse_error by blast
  show "\<forall>v. fst (cacheService_get parse k c) = Inr None \<and> fetchFn () = Inr v \<longrightarrow>
          getOrSet parse stringify k fetchFn ttl c
            = (Inr v, snd (cacheService_set stringify k v ttl (snd (cacheService_get parse k c))))"
    by (intro allI impI, elim conjE) (rule getOrSet_miss)
  show "\<forall>v. \<exists>b. fst (cacheService_set stringify k v ttl c) = Inr b"
    by (rule allI) (rule cacheService_set_total)
  show "\<forall>r v s. client c = Some r \<and> isConnected c \<and> faults r = [] \<and> stringify v = Inr s \<longrightarrow>
          (\<exists>r'. client (snd (cacheService_set stringify k v ttl c)) = Some r'
                \<and> map_of (entries r') k = Some (s, ttl))"
  proof (intro allI impI, elim conjE)
    fix r v s
    assume a: "client c = Some r" "isConnected c" "faults r = []" "stringify v = Inr s"
    have "cacheService_set stringify k v ttl c
       = (Inr True, c\<lparr>client := Some (r\<lparr>entries := (k, s, ttl) # filter (\<lambda>e. fst e \<noteq> k) (entries r)\<rparr>)\<rparr>)"
      using a by (rule cacheService_set_stores)
    then show "\<exists>r'. client (snd (cacheService_set stringify k v ttl c)) = Some r'
                \<and> map_of (entries r') k = Some (s, ttl)"
      by simp
  qed
qed

theorem cache_reads_never_raise_witness:
  "\<not> isAvailable cache_offline
   \<and> cacheService_get (no_parse :: string \<Rightarrow> error + nat option) ''stats:media'' cache_offline
       = (Inr None, cache_offline)
   \<and> getOrSet no_parse unary_stringify ''stats:media'' (\<lambda>_. Inr 7) 30 cache_offline
       = (Inr 7, cache_offline)
   \<and> fst (cacheService_get (no_parse :: string \<Rightarrow> error + nat option) ''stats:media'' cache_faulty)
       = Inr None"
proof -
  note offline = cache_reads_never_raise
    [of "no_parse :: string \<Rightarrow> error + nat option" "''stats:media''" cache_offline
        "\<lambda>_. Inr 7" unary_stringify 30]
  note faulty = cache_reads_never_raise
    [of "no_parse :: string \<Rightarrow> error + nat option" "''stats:media''" cache_faulty
        "\<lambda>_. Inr 7" unary_stringify 30]
  have down: "\<not> isAvailable cache_offline"
    by (simp add: isAvailable_def cache_offline_def)
  from offline down
  have read: "cacheService_get (no_parse :: string \<Rightarrow> error + nat option) ''stats:media'' cache_offline
                = (Inr None, cache_offline)"
    by blast
  from offline
  have "\<forall>v. fst (cacheService_get (no_parse :: string \<Rightarrow> error + nat option) ''stats:media'' cache_offline) = Inr None
             \<and> (\<lambda>_::unit. (Inr 7 :: error + nat)) () = Inr v \<longrightarrow>
          getOrSet no_parse unary_stringify ''stats:media'' (\<lambda>_. Inr 7) 30 cache_offline
            = (Inr v, snd (cacheService_set unary_stringify ''stats:media'' v 30
                 (snd (cacheService_get (no_parse :: string \<Rightarrow> error + nat option) ''stats:media'' cache_offline))))"
    by blast
  with read
  have "getOrSet no_parse unary_stringify ''stats:media'' (\<lambda>_. Inr 7) 30 cache_offline
            = (Inr 7, snd (cacheService_set unary_stringify ''stats:media'' 7 30 cache_offline))"
    by simp
  then have miss: "getOrSet no_parse unary_stringify ''stats:media'' (\<lambda>_. Inr 7) 30 cache_offline
            = (Inr 7, cache_offline)"
    using down by (simp add: cacheService_set_def)
  from faulty
  have "\<forall>r fs. client cache_faulty = Some r \<and> faults r = True # fs \<longrightarrow>
          fst (cacheService_get (no_parse :: string \<Rightarrow> error + nat option) ''stats:media'' cache_faulty) = Inr None"
    by blast
  then have thrown:
    "fst (cacheService_get (no_parse :: string \<Rightarrow> error + nat option) ''stats:media'' cache_faulty) = Inr None"
    by (simp add: cache_faulty_def)
  from down read miss thrown show ?thesis by simp
qed

lemma save_result_jobTable: "jobTable (snd (save_result env jid u key result w)) = jobTable w"
  by (auto simp: save_result_def Let_def split: prod.splits sum.splits)

text \<open>
  The handler's write to the job table is the one the step \<open>EvProcess\<close> makes: the status
  \<open>processing\<close>, on any row, with \<open>completed_at\<close> as it was.
\<close>

lemma processScrapeJob_jobTable:
  "jobTable (snd (processScrapeJob env jid u w))
     = (case updateStatus jid Processing None (jobTable w) of
          Inl e \<Rightarrow> jobTable w | Inr tbl \<Rightarrow> tbl)"
proof (cases "updateStatus jid Processing None (jobTable w)")
  case (Inl e)
  then show ?thesis by (simp add: processScrapeJob_def)
next
  case (Inr tbl)
  then show ?thesis
    by (cases "cacheService_get (jsonParse env) (urlCache u) (cache (w\<lparr>jobTable := tbl\<rparr>))")
       (auto simp: processScrapeJob_def Let_def save_result_jobTable
             split: sum.splits option.splits)
qed

lemma begin_processing_jobs:
  "jobs (snd (begin_processing jid s))
     = (case updateStatus jid Processing None (jobs s) of
          Inl e \<Rightarrow> jobs s | Inr tbl \<Rightarrow> tbl)"
  by (simp add: begin_processing_def split: sum.splits)




section \<open>The extraction cache key\<close>




section \<open>The extractor's URL filter\<close>

lemma str_includes_iff: "str_includes s sub \<longleftrightarrow> (\<exists>pre post. s = pre @ sub @ post)"
proof (induction s)
  case Nil
  then show ?case by auto
next
  case (Cons c cs)
  show ?case
  proof
    assume "str_includes (c # cs) sub"
    then consider "take (length sub) (c # cs) = sub" | "str_includes cs sub" by auto
    then show "\<exists>pre post. c # cs = pre @ sub @ post"
    proof cases
      case 1
      then have "c # cs = [] @ sub @ drop (length sub) (c # cs)"
        by (metis append_Nil append_take_drop_id)
      then show ?thesis by blast
    next
      case 2
      with Cons.IH obtain pre post where "cs = pre @ sub @ post" by blast
      then have "c # cs = (c # pre) @ sub @ post" by simp
      then show ?thesis by blast
    qed
  next
    assume "\<exists>pre post. c # cs = pre @ sub @ post"
    then obtain pre post where eq: "c # cs = pre @ sub @ post" by blast
    show "str_includes (c # cs) sub"
    proof (cases pre)
      case Nil
      with eq have "take (length sub) (c # cs) = sub" by simp
      then show ?thesis by simp
    next
      case (Cons p pre')
      with eq have "cs = pre' @ sub @ post" by simp
      with Cons.IH have "str_includes cs sub" by blast
      then show ?thesis by simp
    qed
  qed
qed

lemma isValidMediaUrl_iff:
  "isValidMediaUrl parseUrl u \<longleftrightarrow>
     (\<exists>urlObj. parseUrl u = Some urlObj \<and> protocol urlObj \<noteq> ''data:''
        \<and> \<not> list_ex (\<lambda>domain. str_includes (hostname urlObj) domain) blockedDomains
        \<and> \<not> str_includes (toLowerCase (pathname urlObj)) ''1x1''
        \<and> \<not> str_includes (toLowerCase (pathname urlObj)) ''pixel'')"
  by (auto simp: isValidMediaUrl_def split: option.splits)

lemma isValidMediaUrl_samples:
  "\<not> isValidMediaUrl node_url ''data:image/png;base64,AAAA''
   \<and> \<not> isValidMediaUrl node_url ''https://www.google-analytics.com/collect''
   \<and> \<not> isValidMediaUrl node_url ''https://cdn.example/img/Pixel.gif''
   \<and> isValidMediaUrl node_url ''https://x.com/p''"
  by code_simp

text \<open>
  Claim C6 asks the filter to reject every resolved URL whose scheme is not \<open>http:\<close> or
  \<open>https:\<close>. The extractor's filter looks for the scheme \<open>data:\<close> only. The candidate
  \<open>ftp://files.example/a.jpg\<close> on the page \<open>https://x.com/p\<close> does not start with
  \<open>http://\<close>, \<open>https://\<close> or \<open>//\<close>, so it is resolved against the page and comes
  back as it is; its scheme \<open>ftp:\<close> is not \<open>data:\<close>, its host is not blocked and its
  path has neither \<open>1x1\<close> nor \<open>pixel\<close>: the extractor keeps it. The renderer's path
  would not have collected it.
\<close>

theorem extractor_keeps_ftp_candidate:
  "makeAbsoluteUrl node_url node_resolve ''ftp://files.example/a.jpg'' ''https://x.com/p''
     = Some ''ftp://files.example/a.jpg''
   \<and> map_option protocol (node_url ''ftp://files.example/a.jpg'') = Some ''ftp:''
   \<and> \<not> http_scheme ''ftp:''
   \<and> isValidMediaUrl node_url ''ftp://files.example/a.jpg''
   \<and> accept_candidate node_url node_resolve ''ftp://files.example/a.jpg'' ''https://x.com/p''
       = Some ''ftp://files.example/a.jpg''
   \<and> \<not> renderer_collects ''ftp://files.example/a.jpg''"
  by (simp add: accept_candidate_def makeAbsoluteUrl_def isValidMediaUrl_def node_url_def
        node_resolve_def startsWith_def http_scheme_def blockedDomains_def toLowerCase_def
        lower_char_def renderer_collects_def)

section \<open>Basic authentication and passwords with a colon\<close>

lemma split_on_nonempty: "split_on c s \<noteq> []"
  by (induction s) (auto split: list.splits)

lemma split_on_no_sep: "seg \<in> set (split_on c s) \<Longrightarrow> c \<notin> set seg"
  by (induction s arbitrary: seg) (auto split: if_splits list.splits)

lemma nth_opt_in_set: "nth_opt xs n = Some x \<Longrightarrow> x \<in> set xs"
  by (induction xs n rule: nth_opt.induct) auto

lemma split_on_append: "c \<notin> set a \<Longrightarrow> split_on c (a @ c # rest) = a # split_on c rest"
  by (induction a) (auto split: list.splits)

lemma split_on_none: "c \<notin> set a \<Longrightarrow> split_on c a = [a]"
  by (induction a) (auto split: list.splits)

lemma credentials_password_no_colon:
  "credentials_of decode hdr = Some (n, Some p) \<Longrightarrow> CHR '':'' \<notin> set p"
  by (auto simp: credentials_of_def Let_def split: option.splits
           dest!: nth_opt_in_set split_on_no_sep)

lemma credentials_first_two:
  assumes "CHR '' '' \<notin> set tok" "CHR '':'' \<notin> set n" "CHR '':'' \<notin> set a"
      and "decode tok = n @ CHR '':'' # a @ CHR '':'' # b"
  shows "credentials_of decode (''Basic '' @ tok) = Some (Some n, Some a)"
proof -
  have "split_on (CHR '' '') (''Basic '' @ tok) = [''Basic'', tok]"
    using split_on_append [of "CHR '' ''" "''Basic''" tok] split_on_none [OF assms(1)]
    by simp
  moreover have "split_on (CHR '':'') (decode tok) = n # a # split_on (CHR '':'') b"
    using assms split_on_append [of "CHR '':''" n "a @ CHR '':'' # b"]
          split_on_append [of "CHR '':''" a b]
    by simp
  ultimately show ?thesis
    by (simp add: credentials_of_def Let_def)
qed

lemma findByUsername_name: "findByUsername users name = Some u \<Longrightarrow> username u = name"
  by (auto simp: findByUsername_def find_Some_iff)

lemma authenticate_colon_user:
  assumes usr: "findByUsername users name = Some u"
      and colon: "\<forall>p. compare p (passwordHash u) \<longrightarrow> CHR '':'' \<in> set p"
      and nocolon: "CHR '':'' \<notin> set p"
  shows "authenticate compare users name p = None"
  using assms by (auto simp: authenticate_def verifyPassword_def)

lemma authenticate_Some_name:
  "authenticate compare users name p = Some v \<Longrightarrow> username v = name"
  by (auto simp: authenticate_def dest: findByUsername_name split: if_splits)

lemma accepted_password_has_colon:
  assumes "take 72 p = take 72 stored" "CHR '':'' \<in> set (take 72 stored)"
  shows "CHR '':'' \<in> set p"
proof -
  from assms have "CHR '':'' \<in> set (take 72 p)" by simp
  then show ?thesis by (rule in_set_takeD)
qed

text \<open>
  Claim C10, as the code has it. The middleware splits the decoded credentials on every
  colon and passes the first two segments on: for a token that decodes to \<open>n:a:b\<close> the
  password it checks is \<open>a\<close>, and the password it checks never has a colon. bcrypt
  accepts a password only if it agrees with the stored one on the first 72 bytes. So for
  a user whose stored password has a colon among its first 72 bytes, every request that
  names this user is answered 401, and no request is passed on as this user. A password
  whose first colon comes later is not covered.
\<close>

theorem colon_in_first_72_bytes_never_authenticates:
  assumes usr: "findByUsername users name = Some u"
      and bcrypt: "\<forall>p. compare p (passwordHash u) \<longrightarrow> take 72 p = take 72 stored"
      and colon: "CHR '':'' \<in> set (take 72 stored)"
  shows "(\<forall>tok n a b. CHR '' '' \<notin> set tok \<and> CHR '':'' \<notin> set n \<and> CHR '':'' \<notin> set a
                      \<and> decode tok = n @ CHR '':'' # a @ CHR '':'' # b \<longrightarrow>
            credentials_of decode (''Basic '' @ tok) = Some (Some n, Some a))
       \<and> (\<forall>hdr n p. credentials_of decode hdr = Some (n, Some p) \<longrightarrow> CHR '':'' \<notin> set p)
       \<and> (\<forall>hdr pw. credentials_of decode hdr = Some (Some name, pw) \<longrightarrow>
            (\<exists>msg. basicAuth decode compare users (Some hdr) = Respond 401 msg))
       \<and> (\<forall>h i. basicAuth decode compare users h \<noteq> Next i name)"
proof (intro conjI)
  have accepted: "\<forall>p. compare p (passwordHash u) \<longrightarrow> CHR '':'' \<in> set p"
  proof (intro allI impI)
    fix p
    assume "compare p (passwordHash u)"
    with bcrypt have "take 72 p = take 72 stored" by blast
    then show "CHR '':'' \<in> set p"
      using colon by (rule accepted_password_has_colon)
  qed
  show "\<forall>tok n a b. CHR '' '' \<notin> set tok \<and> CHR '':'' \<notin> set n \<and> CHR '':'' \<notin> set a
                      \<and> decode tok = n @ CHR '':'' # a @ CHR '':'' # b \<longrightarrow>
            credentials_of decode (''Basic '' @ tok) = Some (Some n, Some a)"
    using credentials_first_two by blast
  show nocolon: "\<forall>hdr n p. credentials_of decode hdr = Some (n, Some p) \<longrightarrow> CHR '':'' \<notin> set p"
    using credentials_password_no_colon by blast
  show "\<forall>hdr pw. credentials_of decode hdr = Some (Some name, pw) \<longrightarrow>
            (\<exists>msg. basicAuth decode compare users (Some hdr) = Respond 401 msg)"
  proof (intro allI impI)
    fix hdr pw
    assume cred: "credentials_of decode hdr = Some (Some name, pw)"
    show "\<exists>msg. basicAuth decode compare users (Some hdr) = Respond 401 msg"
    proof (cases pw)
      case None
      with cred show ?thesis by (simp add: basicAuth_def falsy_def)
    next
      case (Some p)
      with cred nocolon have np: "CHR '':'' \<notin> set p" by blast
      have "authenticate compare users name p = None"
        using usr accepted np by (rule authenticate_colon_user)
      with cred Some show ?thesis by (simp add: basicAuth_def)
    qed
  qed
  show "\<forall>h i. basicAuth decode compare users h \<noteq> Next i name"
  proof (intro allI notI)
    fix h i
    assume passed: "basicAuth decode compare users h = Next i name"
    then obtain hdr n p v where cred: "credentials_of decode hdr = Some (Some n, Some p)"
      and auth: "authenticate compare users n p = Some v" and v: "username v = name"
      by (auto simp: basicAuth_def falsy_def split: option.splits if_splits)
    from authenticate_Some_name [OF auth] v have nm: "n = name" by simp
    from cred nocolon have np: "CHR '':'' \<notin> set p" by blast
    have "authenticate compare users name p = None"
      using usr accepted np by (rule authenticate_colon_user)
    with auth nm show False by simp
  qed
qed

theorem colon_in_first_72_bytes_never_authenticates_witness:
  "findByUsername users_sample ''admin''
     = Some \<lparr>userRowId = 1, username = ''admin'', passwordHash = bcrypt_hash ''pa:ss''\<rparr>
   \<and> CHR '':'' \<in> set (take 72 ''pa:ss'')
   \<and> credentials_of decode_sample ''Basic YWRtaW46cGE6c3M='' = Some (Some ''admin'', Some ''pa'')
   \<and> basicAuth decode_sample bcrypt_compare users_sample (Some ''Basic YWRtaW46cGE6c3M='')
       = Respond 401 ''Invalid username or password''
   \<and> basicAuth decode_sample bcrypt_compare users_sample (Some ''Basic Ym9iOmh1bnRlcjI='')
       = Next 2 ''bob''"
proof -
  let ?admin = "\<lparr>userRowId = 1, username = ''admin'', passwordHash = bcrypt_hash ''pa:ss''\<rparr>"
  have usr: "findByUsername users_sample ''admin'' = Some ?admin"
    by (simp add: findByUsername_def users_sample_def)
  have bcrypt: "\<forall>p. bcrypt_compare p (passwordHash ?admin) \<longrightarrow> take 72 p = take 72 ''pa:ss''"
    by (simp add: bcrypt_compare_def bcrypt_hash_def)
  have colon: "CHR '':'' \<in> set (take 72 ''pa:ss'')"
    by simp
  note inst = colon_in_first_72_bytes_never_authenticates
    [where users = users_sample and name = "''admin''" and compare = bcrypt_compare
       and u = ?admin and stored = "''pa:ss''" and decode = decode_sample, OF usr bcrypt colon]
  have dec: "decode_sample ''YWRtaW46cGE6c3M='' = ''admin'' @ CHR '':'' # ''pa'' @ CHR '':'' # ''ss''"
    by (simp add: decode_sample_def)
  from inst have "\<forall>tok n a b. CHR '' '' \<notin> set tok \<and> CHR '':'' \<notin> set n \<and> CHR '':'' \<notin> set a
                      \<and> decode_sample tok = n @ CHR '':'' # a @ CHR '':'' # b \<longrightarrow>
            credentials_of decode_sample (''Basic '' @ tok) = Some (Some n, Some a)"
    by blast
  from this [rule_format, of "''YWRtaW46cGE6c3M=''" "''admin''" "''pa''" "''ss''"] dec
  have cred: "credentials_of decode_sample ''Basic YWRtaW46cGE6c3M='' = Some (Some ''admin'', Some ''pa'')"
    by simp
  from inst have "\<forall>hdr pw. credentials_of decode_sample hdr = Some (Some ''admin'', pw) \<longrightarrow>
            (\<exists>msg. basicAuth decode_sample bcrypt_compare users_sample (Some hdr) = Respond 401 msg)"
    by blast
  with cred obtain msg where
    refused: "basicAuth decode_sample bcrypt_compare users_sample (Some ''Basic YWRtaW46cGE6c3M='')
                = Respond 401 msg"
    by blast
  have "basicAuth decode_sample bcrypt_compare users_sample (Some ''Basic YWRtaW46cGE6c3M='')
          = Respond 401 ''Invalid username or password''"
    using cred
    by (simp add: basicAuth_def startsWith_def falsy_def authenticate_def verifyPassword_def
          findByUsername_def users_sample_def bcrypt_compare_def bcrypt_hash_def)
  moreover have "basicAuth decode_sample bcrypt_compare users_sample (Some ''Basic Ym9iOmh1bnRlcjI='')
       = Next 2 ''bob''"
    by (simp add: basicAuth_def startsWith_def falsy_def authenticate_def verifyPassword_def
          findByUsername_def users_sample_def bcrypt_compare_def bcrypt_hash_def
          credentials_of_def decode_sample_def Let_def)
  ultimately show ?thesis
    using usr cred refused colon by simp
qed

text \<open>
  Claim C10 as stated fails: not every stored password with a colon is locked out. The
  password of \<open>admin\<close> is 72 times \<open>x\<close> followed by \<open>:rest\<close>. The client sends
  \<open>admin:\<close> and this password; the middleware checks the segment before the password's
  colon, the 72 \<open>x\<close>, which are the bytes bcrypt hashed: the request is passed on as
  \<open>admin\<close>.
\<close>

theorem long_colon_password_counterexample:
  "CHR '':'' \<in> set long_password
   \<and> map passwordHash users_long = [bcrypt_hash long_password]
   \<and> credentials_of decode_long (''Basic '' @ long_token)
       = Some (Some ''admin'', Some (replicate 72 (CHR ''x'')))
   \<and> basicAuth decode_long bcrypt_compare users_long (Some (''Basic '' @ long_token))
       = Next 1 ''admin''"
  by code_simp

end
